theory Spec2Isabelle
  imports Main "HOL-Library.List_Lexorder" "HOL-Library.Option_ord"
begin

section \<open>JavaScript values used by server.js\<close>

text \<open>
  The model follows the second (current) version of \<open>server.js\<close>: the polling engine with
  \<open>scheduleNextPoll\<close>, \<open>pollLiveChat\<close>, \<open>pollLoop\<close> and the \<open>/api/yt/enabled\<close> switch.

  Strings are lists of UTF-16 code units, as JavaScript has them. A property that is
  \<open>undefined\<close>, \<open>null\<close> or missing is \<open>None\<close>.
\<close>

type_synonym jsstring = "nat list"

definition str :: "string \<Rightarrow> jsstring" where
  "str s = map of_char s"

text \<open>
  Numbers are integers or \<open>NaN\<close>; every number of the engine is a count of milliseconds.
  Fractions and infinities are outside the model.
\<close>

datatype jsnum = NaN | Num int

fun truthy_num :: "jsnum \<Rightarrow> bool" where
  "truthy_num NaN = False"
| "truthy_num (Num n) = (n \<noteq> 0)"

definition or_num :: "jsnum \<Rightarrow> jsnum \<Rightarrow> jsnum" where
  "or_num a b = (if truthy_num a then a else b)"

fun Math_max :: "jsnum \<Rightarrow> jsnum \<Rightarrow> jsnum" where
  "Math_max (Num a) (Num b) = Num (max a b)"
| "Math_max _ _ = NaN"

fun Math_min :: "jsnum \<Rightarrow> jsnum \<Rightarrow> jsnum" where
  "Math_min (Num a) (Num b) = Num (min a b)"
| "Math_min _ _ = NaN"

fun js_times :: "jsnum \<Rightarrow> int \<Rightarrow> jsnum" where
  "js_times (Num a) k = Num (a * k)"
| "js_times NaN k = NaN"

fun js_gt :: "jsnum \<Rightarrow> jsnum \<Rightarrow> bool" where
  "js_gt (Num a) (Num b) = (b < a)"
| "js_gt _ _ = False"

text \<open>Truthiness of a string-valued property: missing and the empty string are falsy.\<close>

fun truthy_str :: "jsstring option \<Rightarrow> bool" where
  "truthy_str None = False"
| "truthy_str (Some s) = (s \<noteq> [])"

definition or_str :: "jsstring option \<Rightarrow> jsstring option \<Rightarrow> jsstring option" where
  "or_str a b = (if truthy_str a then a else b)"

text \<open>\<open>String(x || '')\<close> for a string-valued property \<open>x\<close>.\<close>

fun String_or_empty :: "jsstring option \<Rightarrow> jsstring" where
  "String_or_empty None = []"
| "String_or_empty (Some s) = s"

section \<open>Configuration\<close>

text \<open>
  The constants read from the environment at start-up. \<open>Number(process.env.X || d)\<close> is
  \<open>NaN\<close> for a value that is not a number.
\<close>

record config =
  oauthConfigured :: bool
  YT_POLL_MS :: jsnum
  YT_CHANNEL_TTL_MS :: jsnum
  YT_BACKOFF_MAX_MS :: jsnum

section \<open>Errors of the remote API\<close>

text \<open>
  An error thrown by a googleapis call. \<open>e_reason\<close> is \<open>e.errors[0].reason\<close> and
  \<open>e_response_reason\<close> is \<open>e.response.data.error.errors[0].reason\<close>.
\<close>

record api_error =
  e_message :: "jsstring option"
  e_reason :: "jsstring option"
  e_response_reason :: "jsstring option"

text \<open>
  \<open>toLowerCase\<close> on the ASCII letters. The lower-casing of other code units cannot
  create or destroy an occurrence of the ASCII texts the classifiers look for.
\<close>

definition lower_unit :: "nat \<Rightarrow> nat" where
  "lower_unit c = (if 65 \<le> c \<and> c \<le> 90 then c + 32 else c)"

definition toLowerCase :: "jsstring \<Rightarrow> jsstring" where
  "toLowerCase s = map lower_unit s"

fun starts_with :: "jsstring \<Rightarrow> jsstring \<Rightarrow> bool" where
  "starts_with [] s = True"
| "starts_with (p # ps) [] = False"
| "starts_with (p # ps) (c # cs) = (p = c \<and> starts_with ps cs)"

fun js_includes :: "jsstring \<Rightarrow> jsstring \<Rightarrow> bool" where
  "js_includes [] p = (p = [])"
| "js_includes (c # cs) p = (starts_with p (c # cs) \<or> js_includes cs p)"

definition error_reason :: "api_error \<Rightarrow> jsstring" where
  "error_reason e =
     toLowerCase (String_or_empty (or_str (or_str (e_reason e) (e_response_reason e)) (Some [])))"

definition isQuotaExceededError :: "api_error \<Rightarrow> bool" where
  "isQuotaExceededError e =
     (let msg = toLowerCase (String_or_empty (e_message e));
          reason = error_reason e
      in js_includes msg (str ''exceeded your quota'') \<or> reason = str ''quotaexceeded''
         \<or> js_includes msg (str ''quotaexceeded''))"

definition isChatNoLongerLiveError :: "api_error \<Rightarrow> bool" where
  "isChatNoLongerLiveError e =
     (let msg = toLowerCase (String_or_empty (e_message e));
          reason = error_reason e
      in js_includes msg (str ''live chat is no longer live'') \<or> reason = str ''livechatnotfound''
         \<or> reason = str ''livechatclosed'')"

section \<open>Events and subscribers\<close>

datatype level = Info | Warn | Err

text \<open>
  The text of a status notice, kept as the template it is built from together with the
  values interpolated into it.
\<close>

datatype status_text =
    Idle
  | Connected
  | NextPollIn int jsstring
  | PollingOff
  | LoggedOut
  | SwitchedOff
  | SwitchedOn
  | ChatEndedRedetect
  | AuthedChannelIs jsstring
  | ChannelsListFailed api_error
  | TokenRefreshed
  | TokenRefreshFailed api_error
  | NoActiveLive
  | GotLiveChatId
  | Fetching
  | FetchDone nat bool jsnum
  | PollError api_error
  | QuotaPause jsnum

record chat_msg =
  c_id :: "jsstring option"
  c_name :: jsstring
  c_text :: jsstring
  c_role :: jsstring
  c_isOwner :: bool
  c_isMod :: bool
  c_isMember :: bool
  c_publishedAt :: "jsstring option"

text \<open>
  A toast \<open>{kind: 'toast', type, title, body, ms: 9000}\<close>: the type with the values its
  body is built from (author name first).
\<close>

datatype toast =
    SuperchatToast jsstring "jsstring option" jsstring
  | MembershipToast jsstring "jsstring option"
  | GiftToast jsstring jsstring

datatype event =
    Status level status_text
  | Chat chat_msg
  | Toast toast

text \<open>
  The frame \<open>event: yt\ndata: <JSON of evt>\n\n\<close> written to a subscriber, represented by
  the event it serializes.
\<close>

datatype payload = SseFrame event

text \<open>
  A subscriber is the response object of one \<open>/api/events\<close> request. \<open>res.write\<close>
  throws on a sink that fails; otherwise the frame is appended to what the sink received.
\<close>

record sink =
  sink_id :: nat
  sink_fails :: bool
  written :: "payload list"

datatype write_error = WriteFailed

definition res_write :: "sink \<Rightarrow> payload \<Rightarrow> write_error + sink" where
  "res_write s p = (if sink_fails s then Inl WriteFailed else Inr (s\<lparr>written := written s @ [p]\<rparr>))"

section \<open>Module state\<close>

record tokens =
  access_token :: "jsstring option"
  refresh_token :: "jsstring option"
  expiry_date :: "int option"

record session =
  oauthTokens :: "tokens option"

text \<open>
  The handle of \<open>setTimeout(() => pollLoop(session), delay)\<close>: \<open>t_delay\<close> is the time after
  which Node fires the timer. \<open>pollTimeout\<close> keeps the handle after the timer has fired (it
  stays truthy while a cycle is in flight) and after \<open>clearTimeout\<close>; \<open>t_fired\<close> holds for a
  handle that will not fire (any more).
\<close>

record timer =
  t_delay :: int
  t_session :: session
  t_fired :: bool

record channel =
  ch_id :: "jsstring option"
  ch_title :: jsstring

text \<open>
  The history of a run, a variable added to the module's state so that properties of
  sequences of calls can be stated; the program never reads it. It lists, in order, the
  requests sent to the remote API (a page fetch with the \<open>liveChatId\<close> and the \<open>pageToken\<close> it
  passes), the \<open>nextPageToken\<close> of every page answered, and every reset of the live
  session (\<open>resetLiveState\<close>, and the two authorization handlers, which clear the same
  variables).
\<close>

datatype trace_entry =
    ChannelsList
  | RefreshAccessToken
  | LiveBroadcastsList
  | LiveChatMessagesList jsstring "jsstring option"
  | PageAnswer "jsstring option"
  | SessionReset

record state =
  ytEnabled :: bool
  sseClients :: "sink list"
  lastSeenMessageId :: "jsstring option"
  activeLiveChatId :: "jsstring option"
  nextPageToken :: "jsstring option"
  lastStatus :: event
  lastPollAt :: "int option"
  authedChannel :: "channel option"
  activeBroadcast :: "channel option"
  authedChannelAt :: "int option"
  pollTimeout :: "timer option"
  nextPollAt :: "int option"
  lastPollMsEffective :: "int option"
  backoffUntil :: "int option"
  backoffMs :: jsnum
  history :: "trace_entry list"

definition record_entry :: "trace_entry \<Rightarrow> state \<Rightarrow> state" where
  "record_entry c st = st\<lparr>history := history st @ [c]\<rparr>"

section \<open>Fanout\<close>

text \<open>
  \<open>broadcastEvent\<close> as written: the loop body is \<open>try { res.write(payload) } catch (_) {}\<close>.
  \<open>for_each_client\<close> keeps the exception channel of the loop so that it can be shown empty.
  The \<open>ts\<close> stamp added to \<open>lastStatus\<close> is not modelled.
\<close>

definition try_write :: "payload \<Rightarrow> sink \<Rightarrow> write_error + sink" where
  "try_write p s = (case res_write s p of Inl _ \<Rightarrow> Inr s | Inr s' \<Rightarrow> Inr s')"

fun for_each_client :: "payload \<Rightarrow> sink list \<Rightarrow> write_error + sink list" where
  "for_each_client p [] = Inr []"
| "for_each_client p (s # ss) =
     (case try_write p s of
        Inl e \<Rightarrow> Inl e
      | Inr s' \<Rightarrow> (case for_each_client p ss of Inl e \<Rightarrow> Inl e | Inr ss' \<Rightarrow> Inr (s' # ss')))"

fun is_status :: "event \<Rightarrow> bool" where
  "is_status (Status l m) = True"
| "is_status _ = False"

definition broadcastEvent_exn :: "state \<Rightarrow> event \<Rightarrow> write_error + state" where
  "broadcastEvent_exn st evt =
     (let st1 = (if is_status evt then st\<lparr>lastStatus := evt\<rparr> else st);
          payload = SseFrame evt
      in case for_each_client payload (sseClients st1) of
           Inl e \<Rightarrow> Inl e
         | Inr cs \<Rightarrow> Inr (st1\<lparr>sseClients := cs\<rparr>))"

text \<open>The same function with the caught exception folded in; the callers use this one.\<close>

definition deliver :: "payload \<Rightarrow> sink \<Rightarrow> sink" where
  "deliver p s = (case res_write s p of Inl _ \<Rightarrow> s | Inr s' \<Rightarrow> s')"

definition broadcastEvent :: "state \<Rightarrow> event \<Rightarrow> state" where
  "broadcastEvent st evt =
     (let st1 = (if is_status evt then st\<lparr>lastStatus := evt\<rparr> else st);
          payload = SseFrame evt
      in st1\<lparr>sseClients := map (deliver payload) (sseClients st1)\<rparr>)"

section \<open>Scheduling\<close>

definition resetLiveState :: "status_text option \<Rightarrow> state \<Rightarrow> state" where
  "resetLiveState reason st =
     (let st1 = record_entry SessionReset
                  (st\<lparr>lastSeenMessageId := None, nextPageToken := None,
                      activeLiveChatId := None, activeBroadcast := None\<rparr>)
      in case reason of
           None \<Rightarrow> st1
         | Some r \<Rightarrow> broadcastEvent st1 (Status Warn r))"

text \<open>
  Two limits of the runtime. \<open>new Date(v).toISOString()\<close> throws a \<open>RangeError\<close> unless \<open>v\<close>
  is a time value, a number of at most 8.64e15 in absolute value. \<open>setTimeout(f, after)\<close>
  of Node replaces a delay that is not between 1 and 2147483647 by 1.
\<close>

datatype js_error = RangeError

definition valid_time :: "int \<Rightarrow> bool" where
  "valid_time v = (- 8640000000000000 \<le> v \<and> v \<le> 8640000000000000)"

definition setTimeout_delay :: "int \<Rightarrow> int" where
  "setTimeout_delay after = (if 1 \<le> after \<and> after \<le> 2147483647 then after else 1)"

definition clearTimeout :: "timer option \<Rightarrow> timer option" where
  "clearTimeout h = map_option (\<lambda>tm. tm\<lparr>t_fired := True\<rparr>) h"

text \<open>
  \<open>Math.max(1200, Number(ms) || 1200)\<close>; \<open>ms\<close> is given as the value of \<open>Number(ms)\<close>.
  The second argument is never \<open>NaN\<close>, so the delay is a number.
\<close>

definition poll_delay :: "jsnum \<Rightarrow> jsnum" where
  "poll_delay ms = Math_max (Num 1200) (or_num ms (Num 1200))"

fun the_ms :: "jsnum \<Rightarrow> int" where
  "the_ms (Num d) = d"
| "the_ms NaN = 0"

text \<open>
  \<open>scheduleNextPoll\<close> in the order of its statements: the old timer is cleared, the delay
  is recorded, the next-wake instant is formatted (which may throw, leaving the function
  before any timer is armed), the timer is armed, the notice is broadcast. The result
  carries the exception that leaves the function, if any.
\<close>

definition scheduleNextPoll ::
  "int \<Rightarrow> session \<Rightarrow> jsnum \<Rightarrow> jsstring \<Rightarrow> state \<Rightarrow> state \<times> js_error option" where
  "scheduleNextPoll now sess ms reason st =
     (let st0 = st\<lparr>pollTimeout := clearTimeout (pollTimeout st)\<rparr>;
          delay = the_ms (poll_delay ms);
          st1 = st0\<lparr>lastPollMsEffective := Some delay\<rparr>
      in if \<not> valid_time (now + delay) then (st1, Some RangeError)
         else
           (let st2 = st1\<lparr>nextPollAt := Some (now + delay),
                          pollTimeout := Some \<lparr>t_delay = setTimeout_delay delay, t_session = sess,
                                               t_fired = False\<rparr>\<rparr>
            in (if reason \<noteq> [] then broadcastEvent st2 (Status Info (NextPollIn delay reason))
                else st2,
                None)))"

definition stopPolling :: "status_text option \<Rightarrow> state \<Rightarrow> state" where
  "stopPolling reason st =
     (let st1 = st\<lparr>pollTimeout := None, nextPollAt := None\<rparr>
      in case reason of
           None \<Rightarrow> st1
         | Some r \<Rightarrow> broadcastEvent st1 (Status Warn r))"

section \<open>Raw chat items\<close>

record super_chat_details =
  amountDisplayString :: "jsstring option"
  tier :: "int option"

record new_sponsor_details =
  membershipLevelName :: "jsstring option"

record snippet =
  displayMessage :: "jsstring option"
  superChatDetails :: "super_chat_details option"
  newSponsorDetails :: "new_sponsor_details option"
  publishedAt :: "jsstring option"

record author_details =
  displayName :: "jsstring option"
  isChatOwner :: bool
  isChatModerator :: bool
  isChatSponsor :: bool

record item =
  item_id :: "jsstring option"
  item_snippet :: "snippet option"
  item_authorDetails :: "author_details option"

section \<open>Regular expressions of the gift heuristics\<close>

text \<open>
  The patterns use literals, \<open>\d\<close>, \<open>\s\<close>, grouping, \<open>?\<close>, \<open>+\<close> and \<open>*\<close>, all under the
  \<open>i\<close> flag and unanchored. \<open>re.test(msg)\<close> holds when some substring of \<open>msg\<close> belongs
  to the language of the pattern; it is computed with derivatives.
\<close>

definition is_space :: "nat \<Rightarrow> bool" where
  "is_space c = (c \<in> {9, 10, 11, 12, 13, 32, 160, 5760, 8232, 8233, 8239, 8287, 12288, 65279}
                 \<or> (8192 \<le> c \<and> c \<le> 8202))"

definition is_digit :: "nat \<Rightarrow> bool" where
  "is_digit c = (48 \<le> c \<and> c \<le> 57)"

text \<open>
  Case folding of the \<open>i\<close> flag on the ASCII letters. The literals of the patterns that are
  not ASCII letters (kana and kanji) have no case variants.
\<close>

definition canonicalize :: "nat \<Rightarrow> nat" where
  "canonicalize c = (if 97 \<le> c \<and> c \<le> 122 then c - 32 else c)"

datatype atom = Lit nat | Digit | Space

fun atom_matches :: "atom \<Rightarrow> nat \<Rightarrow> bool" where
  "atom_matches (Lit l) c = (canonicalize c = canonicalize l)"
| "atom_matches Digit c = is_digit c"
| "atom_matches Space c = is_space c"

datatype rx = Nomatch | Eps | Atom atom | Seq rx rx | Alt rx rx | Star rx

definition Opt :: "rx \<Rightarrow> rx" where
  "Opt r = Alt r Eps"

definition Plus :: "rx \<Rightarrow> rx" where
  "Plus r = Seq r (Star r)"

fun Lits :: "jsstring \<Rightarrow> rx" where
  "Lits [] = Eps"
| "Lits [c] = Atom (Lit c)"
| "Lits (c # cs) = Seq (Atom (Lit c)) (Lits cs)"

fun Seqs :: "rx list \<Rightarrow> rx" where
  "Seqs [] = Eps"
| "Seqs [r] = r"
| "Seqs (r # rs) = Seq r (Seqs rs)"

fun nullable :: "rx \<Rightarrow> bool" where
  "nullable Nomatch = False"
| "nullable Eps = True"
| "nullable (Atom a) = False"
| "nullable (Seq r s) = (nullable r \<and> nullable s)"
| "nullable (Alt r s) = (nullable r \<or> nullable s)"
| "nullable (Star r) = True"

fun deriv :: "nat \<Rightarrow> rx \<Rightarrow> rx" where
  "deriv c Nomatch = Nomatch"
| "deriv c Eps = Nomatch"
| "deriv c (Atom a) = (if atom_matches a c then Eps else Nomatch)"
| "deriv c (Seq r s) =
     (if nullable r then Alt (Seq (deriv c r) s) (deriv c s) else Seq (deriv c r) s)"
| "deriv c (Alt r s) = Alt (deriv c r) (deriv c s)"
| "deriv c (Star r) = Seq (deriv c r) (Star r)"

text \<open>\<open>matches_prefix r s\<close>: some prefix of \<open>s\<close> is in the language of \<open>r\<close>.\<close>

fun matches_prefix :: "rx \<Rightarrow> jsstring \<Rightarrow> bool" where
  "matches_prefix r [] = nullable r"
| "matches_prefix r (c # cs) = (nullable r \<or> matches_prefix (deriv c r) cs)"

fun regex_test :: "rx \<Rightarrow> jsstring \<Rightarrow> bool" where
  "regex_test r [] = nullable r"
| "regex_test r (c # cs) = (matches_prefix r (c # cs) \<or> regex_test r cs)"

text \<open>
  The language of a pattern, by which the matcher is justified (\<open>regex_test_lang\<close> below):
  \<open>regex_test r s\<close> holds exactly when a substring of \<open>s\<close> is in \<open>lang r\<close>.
\<close>

definition conc :: "jsstring set \<Rightarrow> jsstring set \<Rightarrow> jsstring set" where
  "conc A B = {u @ v | u v. u \<in> A \<and> v \<in> B}"

inductive_set star :: "jsstring set \<Rightarrow> jsstring set" for A where
  star_empty: "[] \<in> star A"
| star_more: "u \<in> A \<Longrightarrow> v \<in> star A \<Longrightarrow> u @ v \<in> star A"

fun lang :: "rx \<Rightarrow> jsstring set" where
  "lang Nomatch = {}"
| "lang Eps = {[]}"
| "lang (Atom a) = {[c] | c. atom_matches a c}"
| "lang (Seq r s) = conc (lang r) (lang s)"
| "lang (Alt r s) = lang r \<union> lang s"
| "lang (Star r) = star (lang r)"

text \<open>The words of the Japanese patterns, as code units.\<close>

definition membership_ja :: jsstring where
  "membership_ja = [0x30E1, 0x30F3, 0x30D0, 0x30FC, 0x30B7, 0x30C3, 0x30D7]"

definition gift_ja :: jsstring where
  "gift_ja = [0x30AE, 0x30D5, 0x30C8]"

definition wo_ja :: nat where
  "wo_ja = 0x3092"

definition ken_ja :: nat where
  "ken_ja = 0x4EF6"

definition no_ja :: nat where
  "no_ja = 0x306E"

definition ko_ja :: nat where
  "ko_ja = 0x500B"

definition shimashita_ja :: jsstring where
  "shimashita_ja = [0x3057, 0x307E, 0x3057, 0x305F]"

definition patterns :: "rx list" where
  "patterns =
    [ Seqs [Lits (str ''gift''), Opt (Lits (str ''ed'')), Plus (Atom Space), Plus (Atom Digit),
            Plus (Atom Space), Lits (str ''membership''), Opt (Lits (str ''s''))],
      Seqs [Lits (str ''gift''), Opt (Lits (str ''ed'')), Plus (Atom Space), Lits (str ''a''),
            Plus (Atom Space), Lits (str ''membership'')],
      Seqs [Lits (str ''gave''), Plus (Atom Space), Plus (Atom Digit), Plus (Atom Space),
            Lits (str ''membership''), Opt (Lits (str ''s''))],
      Seqs [Lits (str ''sent''), Plus (Atom Space), Plus (Atom Digit), Plus (Atom Space),
            Lits (str ''membership''), Plus (Atom Space), Lits (str ''gift''),
            Opt (Lits (str ''s''))],
      Seqs [Lits membership_ja, Star (Atom Space), Lits gift_ja],
      Seqs [Lits (membership_ja @ [wo_ja]), Star (Atom Space), Plus (Atom Digit),
            Star (Atom Space), Lits [ken_ja], Star (Atom Space), Lits gift_ja],
      Seqs [Plus (Atom Digit), Star (Atom Space), Lits ([ken_ja, no_ja] @ membership_ja),
            Opt (Lits [wo_ja]), Star (Atom Space), Lits gift_ja],
      Lits (membership_ja @ [wo_ja] @ gift_ja @ shimashita_ja),
      Seqs [Lits membership_ja, Star (Atom Space), Plus (Atom Digit), Star (Atom Space),
            Lits [ko_ja], Star (Atom Space), Lits gift_ja] ]"

text \<open>\<open>String.prototype.trim\<close> strips the same code units that \<open>\s\<close> matches.\<close>

definition trim :: "jsstring \<Rightarrow> jsstring" where
  "trim s = rev (dropWhile is_space (rev (dropWhile is_space s)))"

section \<open>EventClassifier\<close>

datatype special =
    Superchat "jsstring option" "int option"
  | Membership "jsstring option"
  | Gift jsstring

text \<open>\<open>item?.snippet?.f\<close> for a field \<open>f\<close> of the snippet.\<close>

definition snippet_field :: "(snippet \<Rightarrow> 'a option) \<Rightarrow> item \<Rightarrow> 'a option" where
  "snippet_field f it = (case item_snippet it of None \<Rightarrow> None | Some sn \<Rightarrow> f sn)"

definition classifySpecialEvent :: "item \<Rightarrow> special option" where
  "classifySpecialEvent it =
     (let details = snippet_field superChatDetails it;
          member = snippet_field newSponsorDetails it
      in case details of
           Some d \<Rightarrow> Some (Superchat (amountDisplayString d) (tier d))
         | None \<Rightarrow>
             (case member of
                Some m \<Rightarrow> Some (Membership (membershipLevelName m))
              | None \<Rightarrow>
                  (let msg = trim (String_or_empty (snippet_field displayMessage it))
                   in if msg \<noteq> [] \<and> list_ex (\<lambda>re. regex_test re msg) patterns
                      then Some (Gift msg)
                      else None)))"

section \<open>The remote API as seen by one poll cycle\<close>

record channel_item =
  chi_id :: "jsstring option"
  chi_title :: "jsstring option"

record broadcast_item =
  b_id :: "jsstring option"
  b_title :: "jsstring option"
  b_liveChatId :: "jsstring option"

record credentials =
  cr_access_token :: "jsstring option"
  cr_expiry_date :: "int option"

record page =
  p_items :: "item list"
  p_nextPageToken :: "jsstring option"
  p_pollingIntervalMillis :: "int option"

text \<open>
  What the outside world answers during one wake of the timer: the instants read from the
  clock (at the wake, when the channel lookup returns, when the cycle is over) and the
  result of each remote call the cycle may make (\<open>Inl\<close>: the call throws). The lists are
  \<open>data.items || []\<close>; \<open>r_refresh\<close> is \<open>refreshed?.credentials\<close>.
\<close>

record poll_env =
  t_wake :: int
  t_channel :: int
  t_done :: int
  r_channels :: "api_error + channel_item list"
  r_refresh :: "api_error + credentials option"
  r_channels_retry :: "api_error + channel_item list"
  r_broadcasts :: "api_error + broadcast_item list"
  r_messages :: "api_error + page"

definition or_int :: "int option \<Rightarrow> int option \<Rightarrow> int option" where
  "or_int a b = (case a of Some n \<Rightarrow> (if n \<noteq> 0 then a else b) | None \<Rightarrow> b)"

definition getAuthedChannel :: "api_error + channel_item list \<Rightarrow> api_error + channel option" where
  "getAuthedChannel resp =
     (case resp of
        Inl e \<Rightarrow> Inl e
      | Inr items \<Rightarrow>
          Inr (case items of
                 [] \<Rightarrow> None
               | ch # _ \<Rightarrow> Some \<lparr>ch_id = chi_id ch, ch_title = String_or_empty (chi_title ch)\<rparr>))"

definition getLiveChatId ::
  "api_error + broadcast_item list \<Rightarrow> state \<Rightarrow> (api_error + jsstring option) \<times> state" where
  "getLiveChatId resp st =
     (let st1 = record_entry LiveBroadcastsList st
      in case resp of
           Inl e \<Rightarrow> (Inl e, st1)
         | Inr items \<Rightarrow>
             (case items of
                [] \<Rightarrow> (Inr None, st1\<lparr>activeBroadcast := None\<rparr>)
              | active # _ \<Rightarrow>
                  (Inr (or_str (b_liveChatId active) None),
                   st1\<lparr>activeBroadcast :=
                         Some \<lparr>ch_id = b_id active, ch_title = String_or_empty (b_title active)\<rparr>\<rparr>)))"

section \<open>pollLiveChat\<close>

datatype poll_result = Undefined | PollResult "int option"

datatype outcome = Returned poll_result | Threw api_error

definition author_flag :: "(author_details \<Rightarrow> bool) \<Rightarrow> item \<Rightarrow> bool" where
  "author_flag f it = (case item_authorDetails it of None \<Rightarrow> False | Some a \<Rightarrow> f a)"

definition author_name :: "item \<Rightarrow> jsstring" where
  "author_name it =
     String_or_empty
       (or_str (case item_authorDetails it of None \<Rightarrow> None | Some a \<Rightarrow> displayName a)
               (Some (str ''Someone'')))"

definition item_text :: "item \<Rightarrow> jsstring" where
  "item_text it = trim (String_or_empty (snippet_field displayMessage it))"

definition chat_of :: "item \<Rightarrow> chat_msg" where
  "chat_of it =
     (let isOwner = author_flag isChatOwner it;
          isMod = author_flag isChatModerator it;
          isMember = author_flag isChatSponsor it
      in \<lparr>c_id = item_id it,
          c_name = author_name it,
          c_text = item_text it,
          c_role = (if isOwner then str ''owner''
                    else if isMod then str ''mod''
                    else if isMember then str ''member'' else []),
          c_isOwner = isOwner, c_isMod = isMod, c_isMember = isMember,
          c_publishedAt = or_str (snippet_field publishedAt it) None\<rparr>)"

text \<open>The body of the loop over \<open>toProcess\<close>.\<close>

definition process_item :: "state \<Rightarrow> item \<Rightarrow> state" where
  "process_item st it =
     (let name = author_name it;
          text = item_text it;
          st1 = (if text \<noteq> [] then broadcastEvent st (Chat (chat_of it)) else st)
      in case classifySpecialEvent it of
           None \<Rightarrow> st1
         | Some (Superchat amount t) \<Rightarrow> broadcastEvent st1 (Toast (SuperchatToast name amount text))
         | Some (Membership lvl) \<Rightarrow> broadcastEvent st1 (Toast (MembershipToast name lvl))
         | Some (Gift message) \<Rightarrow> broadcastEvent st1 (Toast (GiftToast name message)))"

definition announce_channel :: "state \<Rightarrow> state" where
  "announce_channel st =
     (case authedChannel st of
        None \<Rightarrow> st
      | Some ch \<Rightarrow>
          (if ch_title ch \<noteq> [] then broadcastEvent st (Status Info (AuthedChannelIs (ch_title ch)))
           else st))"

text \<open>
  The first part of \<open>pollLiveChat\<close>: the cached channel is looked up again when it is
  missing or stale; when the lookup throws and a refresh token exists, the access token
  is refreshed once, written back into the token object, and the lookup retried.
\<close>

definition shouldRefreshChannel :: "config \<Rightarrow> poll_env \<Rightarrow> state \<Rightarrow> bool" where
  "shouldRefreshChannel cfg env st =
     (case authedChannelAt st of
        None \<Rightarrow> True
      | Some at \<Rightarrow> js_gt (Num (t_wake env - at)) (YT_CHANNEL_TTL_MS cfg))"

definition refresh_channel :: "config \<Rightarrow> poll_env \<Rightarrow> tokens \<Rightarrow> state \<Rightarrow> tokens \<times> state" where
  "refresh_channel cfg env tk st =
     (if authedChannel st = None \<or> shouldRefreshChannel cfg env st then
           (let st1 = record_entry ChannelsList st
            in case getAuthedChannel (r_channels env) of
                 Inr ch \<Rightarrow>
                   (tk, announce_channel
                          (st1\<lparr>authedChannel := ch, authedChannelAt := Some (t_channel env)\<rparr>))
               | Inl e \<Rightarrow>
                   (let st2 = broadcastEvent st1 (Status Warn (ChannelsListFailed e))
                    in if truthy_str (refresh_token tk) then
                         (let st3 = record_entry RefreshAccessToken st2
                          in case r_refresh env of
                               Inl e2 \<Rightarrow> (tk, broadcastEvent st3 (Status Warn (TokenRefreshFailed e2)))
                             | Inr None \<Rightarrow> (tk, st3)
                             | Inr (Some cr) \<Rightarrow>
                                 (let tk' = tk\<lparr>access_token :=
                                                   or_str (cr_access_token cr) (access_token tk),
                                                 expiry_date :=
                                                   or_int (cr_expiry_date cr) (expiry_date tk)\<rparr>;
                                      st4 = broadcastEvent st3 (Status Info TokenRefreshed);
                                      st5 = record_entry ChannelsList st4
                                  in case getAuthedChannel (r_channels_retry env) of
                                       Inl e2 \<Rightarrow>
                                         (tk', broadcastEvent st5
                                                 (Status Warn (TokenRefreshFailed e2)))
                                     | Inr ch \<Rightarrow>
                                         (tk', announce_channel
                                                 (st5\<lparr>authedChannel := ch,
                                                       authedChannelAt := Some (t_channel env)\<rparr>))))
                       else (tk, st2)))
      else (tk, st))"

text \<open>The last part: one page is fetched with the stored token and its items are emitted.\<close>

definition fetch_page :: "poll_env \<Rightarrow> jsstring \<Rightarrow> state \<Rightarrow> outcome \<times> state" where
  "fetch_page env chatId st =
     (let st1 = broadcastEvent st (Status Info Fetching);
          st2 = record_entry (LiveChatMessagesList chatId (or_str (nextPageToken st1) None)) st1
      in case r_messages env of
           Inl e \<Rightarrow> (Threw e, st2)
         | Inr resp \<Rightarrow>
             (let items = p_items resp;
                  st3 = record_entry (PageAnswer (p_nextPageToken resp)) st2
                          \<lparr>nextPageToken := or_str (p_nextPageToken resp) (nextPageToken st2)\<rparr>;
                  toProcess = rev items;
                  st4 = foldl process_item st3 toProcess;
                  st5 = (case items of
                           [] \<Rightarrow> st4
                         | newest # _ \<Rightarrow> st4\<lparr>lastSeenMessageId := item_id newest\<rparr>);
                  pollMsFromApi = (case p_pollingIntervalMillis resp of None \<Rightarrow> 0 | Some n \<Rightarrow> n);
                  st6 = broadcastEvent st5
                          (Status Info (FetchDone (length items) (truthy_str (nextPageToken st5))
                                          (Num pollMsFromApi)))
              in (Returned (PollResult (if pollMsFromApi \<noteq> 0 then Some pollMsFromApi else None)),
                  st6)))"

definition pollLiveChat ::
  "config \<Rightarrow> poll_env \<Rightarrow> tokens option \<Rightarrow> state \<Rightarrow> outcome \<times> tokens option \<times> state" where
  "pollLiveChat cfg env oauth st =
     (if \<not> oauthConfigured cfg then (Returned Undefined, oauth, st)
      else case oauth of
        None \<Rightarrow> (Returned Undefined, oauth, st)
      | Some tk \<Rightarrow>
          (let st0 = st\<lparr>lastPollAt := Some (t_wake env)\<rparr>;
               (tk1, st1) = refresh_channel cfg env tk st0
           in if \<not> truthy_str (activeLiveChatId st1) then
                (case getLiveChatId (r_broadcasts env) st1 of
                   (Inl e, st2) \<Rightarrow> (Threw e, Some tk1, st2)
                 | (Inr found, st2) \<Rightarrow>
                     (let st3 = st2\<lparr>activeLiveChatId := found\<rparr>
                      in case found of
                           None \<Rightarrow>
                             (Returned Undefined, Some tk1,
                              broadcastEvent st3 (Status Warn NoActiveLive))
                         | Some chatId \<Rightarrow>
                             (case fetch_page env chatId
                                     (broadcastEvent st3 (Status Info GotLiveChatId)) of
                                (out, st4) \<Rightarrow> (out, Some tk1, st4))))
              else (case fetch_page env (String_or_empty (activeLiveChatId st1)) st1 of
                      (out, st4) \<Rightarrow> (out, Some tk1, st4))))"

section \<open>pollLoop\<close>

definition slowed_interval :: "config \<Rightarrow> jsnum" where
  "slowed_interval cfg = Math_max (Num 15000) (Math_max (Num 1200) (YT_POLL_MS cfg))"

definition next_backoff :: "config \<Rightarrow> jsnum \<Rightarrow> jsnum" where
  "next_backoff cfg b =
     (if truthy_num b then Math_min (js_times b 2) (YT_BACKOFF_MAX_MS cfg)
      else Math_min (Num 60000) (YT_BACKOFF_MAX_MS cfg))"

text \<open>
  The \<open>catch (e)\<close> block of \<open>pollLoop\<close>. Nothing catches what is thrown inside it:
  \<open>new Date(Date.now() + backoffMs).toISOString()\<close> throws for \<open>NaN\<close> and for an instant
  outside the range of \<open>Date\<close>, and so may \<open>scheduleNextPoll\<close>.
\<close>

definition catch_block ::
  "config \<Rightarrow> int \<Rightarrow> session \<Rightarrow> api_error \<Rightarrow> state \<Rightarrow> state \<times> js_error option" where
  "catch_block cfg now sess e st1 =
     (let quota = isQuotaExceededError e;
          chatClosed = isChatNoLongerLiveError e;
          st2 = broadcastEvent st1
                  (Status (if quota \<or> chatClosed then Err else Warn) (PollError e))
      in if chatClosed then
           scheduleNextPoll now sess (slowed_interval cfg) (str ''chat ended'')
             (resetLiveState (Some ChatEndedRedetect) st2)
         else if quota then
           (let b = next_backoff cfg (backoffMs st2);
                st3 = st2\<lparr>backoffMs := b\<rparr>
            in case b of
                 NaN \<Rightarrow> (st3, Some RangeError)
               | Num n \<Rightarrow>
                   if \<not> valid_time (now + n) then (st3, Some RangeError)
                   else scheduleNextPoll now sess b (str ''quota backoff'')
                          (broadcastEvent (st3\<lparr>backoffUntil := Some (now + n)\<rparr>)
                             (Status Warn (QuotaPause b))))
         else scheduleNextPoll now sess (slowed_interval cfg) (str ''retry'') st2)"

text \<open>
  The \<open>RangeError\<close> of \<open>toISOString\<close> as the \<open>catch\<close> block sees it: an \<open>Error\<close> with the
  message \<open>Invalid time value\<close> and no \<open>errors\<close> or \<open>response\<close> property.
\<close>

definition range_error :: api_error where
  "range_error =
     \<lparr>e_message = Some (str ''Invalid time value''), e_reason = None, e_response_reason = None\<rparr>"

text \<open>
  The statements of the \<open>try\<close> block after \<open>pollLiveChat\<close> has returned \<open>r\<close>. They are inside
  the \<open>try\<close>: what \<open>scheduleNextPoll\<close> throws there is caught by the \<open>catch\<close> block.
\<close>

definition after_poll ::
  "config \<Rightarrow> int \<Rightarrow> session \<Rightarrow> poll_result \<Rightarrow> state \<Rightarrow> state \<times> js_error option" where
  "after_poll cfg now sess r st1 =
     (let st2 = st1\<lparr>backoffUntil := None, backoffMs := Num 0\<rparr>;
          apiMs = (case r of Undefined \<Rightarrow> 0 | PollResult None \<Rightarrow> 0 | PollResult (Some n) \<Rightarrow> n);
          baseMs = Math_max (Num 1200) (YT_POLL_MS cfg);
          nextMs = (if apiMs > 0 then Math_max baseMs (Num apiMs) else baseMs);
          scheduled = scheduleNextPoll now sess nextMs
                        (if apiMs > 0 then str ''api interval'' else str ''env interval'') st2
      in case snd scheduled of
           None \<Rightarrow> scheduled
         | Some err \<Rightarrow> catch_block cfg now sess range_error (fst scheduled))"

text \<open>
  One wake of the timer. The result carries the exception that leaves \<open>pollLoop\<close>, if any.
  The \<open>scheduleNextPoll\<close> of a running backoff is outside the \<open>try\<close>.
\<close>

definition pollLoop :: "config \<Rightarrow> poll_env \<Rightarrow> session \<Rightarrow> state \<Rightarrow> state \<times> js_error option" where
  "pollLoop cfg env sess st =
     (if \<not> ytEnabled st then (stopPolling (Some PollingOff) st, None)
      else case (case backoffUntil st of
                   None \<Rightarrow> None
                 | Some u \<Rightarrow> if t_wake env < u then Some (u - t_wake env) else None) of
        Some remaining \<Rightarrow>
          scheduleNextPoll (t_wake env) sess (Num remaining) (str ''quota backoff'') st
      | None \<Rightarrow>
         (case pollLiveChat cfg env (oauthTokens sess) st of
            (Returned r, oauth, st1) \<Rightarrow>
              after_poll cfg (t_done env) (sess\<lparr>oauthTokens := oauth\<rparr>) r st1
          | (Threw e, oauth, st1) \<Rightarrow>
              catch_block cfg (t_done env) (sess\<lparr>oauthTokens := oauth\<rparr>) e st1))"

text \<open>\<open>ensurePolling\<close>; what \<open>scheduleNextPoll\<close> throws leaves it.\<close>

definition ensurePolling ::
  "config \<Rightarrow> int \<Rightarrow> session \<Rightarrow> state \<Rightarrow> state \<times> js_error option" where
  "ensurePolling cfg now sess st =
     (if \<not> ytEnabled st then (st, None)
      else if pollTimeout st \<noteq> None then (st, None)
      else scheduleNextPoll now sess (Math_max (Num 1200) (YT_POLL_MS cfg)) (str ''start'') st)"

section \<open>Request handlers\<close>

text \<open>\<open>POST /api/yt/enabled\<close> with \<open>Boolean(req.body?.enabled)\<close>.\<close>

definition post_yt_enabled :: "bool \<Rightarrow> state \<Rightarrow> state" where
  "post_yt_enabled enabled st =
     (let st1 = st\<lparr>ytEnabled := enabled\<rparr>
      in if \<not> ytEnabled st1 then
           stopPolling (Some PollingOff)
             (resetLiveState (Some SwitchedOff) (st1\<lparr>backoffUntil := None, backoffMs := Num 0\<rparr>))
         else
           resetLiveState (Some SwitchedOn) (st1\<lparr>backoffUntil := None, backoffMs := Num 0\<rparr>))"

text \<open>
  \<open>GET /api/events\<close>: the frame \<open>connected\<close> is written to the new response object, the
  object is added to the subscribers and polling is ensured. The first write is outside
  any \<open>try\<close>: when it throws, the handler ends there and nothing is added. An exception
  that leaves a handler is answered by the framework; the module's variables stay as they
  were when it was thrown.
\<close>

definition get_api_events :: "config \<Rightarrow> int \<Rightarrow> session \<Rightarrow> sink \<Rightarrow> state \<Rightarrow> state" where
  "get_api_events cfg now sess res st =
     (case res_write res (SseFrame (Status Info Connected)) of
        Inl e \<Rightarrow> st
      | Inr res1 \<Rightarrow> fst (ensurePolling cfg now sess (st\<lparr>sseClients := sseClients st @ [res1]\<rparr>)))"

text \<open>The \<open>close\<close> event of that request: \<open>sseClients.delete(res)\<close>.\<close>

definition on_close :: "nat \<Rightarrow> state \<Rightarrow> state" where
  "on_close i st = st\<lparr>sseClients := filter (\<lambda>s. sink_id s \<noteq> i) (sseClients st)\<rparr>"

text \<open>
  \<open>GET /api/auth/callback\<close> once the code has been exchanged for \<open>tokens\<close>, and
  \<open>GET /api/auth/logout\<close>. Both clear the polling markers by direct assignment.
\<close>

definition clear_markers :: "state \<Rightarrow> state" where
  "clear_markers st =
     record_entry SessionReset
       (st\<lparr>lastSeenMessageId := None, activeLiveChatId := None, nextPageToken := None,
           authedChannel := None, activeBroadcast := None, authedChannelAt := None,
           backoffUntil := None, backoffMs := Num 0\<rparr>)"

definition get_auth_callback :: "config \<Rightarrow> int \<Rightarrow> tokens \<Rightarrow> state \<Rightarrow> state" where
  "get_auth_callback cfg now tk st =
     fst (ensurePolling cfg now \<lparr>oauthTokens = Some tk\<rparr> (clear_markers st))"

definition get_auth_logout :: "state \<Rightarrow> state" where
  "get_auth_logout st = stopPolling (Some LoggedOut) (clear_markers st)"

text \<open>The module's variables when the process starts; \<open>enabled\<close> is \<open>YT_ENABLED === '1'\<close>.\<close>

definition initial_state :: "bool \<Rightarrow> state" where
  "initial_state enabled =
     \<lparr>ytEnabled = enabled, sseClients = [], lastSeenMessageId = None, activeLiveChatId = None,
      nextPageToken = None, lastStatus = Status Info Idle, lastPollAt = None,
      authedChannel = None, activeBroadcast = None, authedChannelAt = None,
      pollTimeout = None, nextPollAt = None, lastPollMsEffective = None,
      backoffUntil = None, backoffMs = Num 0, history = []\<rparr>"

section \<open>Timer wakes and runs\<close>

definition backoff_active :: "int \<Rightarrow> state \<Rightarrow> bool" where
  "backoff_active now st = (case backoffUntil st of None \<Rightarrow> False | Some u \<Rightarrow> now < u)"

text \<open>The armed timer fires: \<open>pollLoop\<close> runs with the session its closure holds.\<close>

definition wake :: "config \<Rightarrow> poll_env \<Rightarrow> state \<Rightarrow> state \<times> js_error option" where
  "wake cfg env st =
     (case pollTimeout st of
        None \<Rightarrow> (st, None)
      | Some tm \<Rightarrow>
          (if t_fired tm then (st, None)
           else pollLoop cfg env (t_session tm) (st\<lparr>pollTimeout := Some (tm\<lparr>t_fired := True\<rparr>)\<rparr>)))"

text \<open>
  What can happen to the engine: a wake of the timer, the switch, a subscriber that
  connects or goes away, an authorization, a logout.
\<close>

datatype action =
    Wake poll_env
  | SetEnabled bool
  | Connect int session sink
  | Disconnect nat
  | Authorize int tokens
  | Logout

fun perform :: "config \<Rightarrow> action \<Rightarrow> state \<Rightarrow> state" where
  "perform cfg (Wake env) st = fst (wake cfg env st)"
| "perform cfg (SetEnabled b) st = post_yt_enabled b st"
| "perform cfg (Connect now sess res) st = get_api_events cfg now sess res st"
| "perform cfg (Disconnect i) st = on_close i st"
| "perform cfg (Authorize now tk) st = get_auth_callback cfg now tk st"
| "perform cfg Logout st = get_auth_logout st"

definition run_actions :: "config \<Rightarrow> action list \<Rightarrow> state \<Rightarrow> state" where
  "run_actions cfg acts st = foldl (\<lambda>s a. perform cfg a s) st acts"

section \<open>Observations used in the statements\<close>

text \<open>
  Reading a history: \<open>expected cur es\<close> is the page token the next fetch has to present
  after the entries \<open>es\<close>, when it was \<open>cur\<close> before them (the token of the last answered
  page that carried one; none after a reset). \<open>threaded cur es\<close> holds when every fetch in
  \<open>es\<close> presents the token expected at that point.
\<close>

fun expected :: "jsstring option \<Rightarrow> trace_entry list \<Rightarrow> jsstring option" where
  "expected cur [] = cur"
| "expected cur (PageAnswer t # es) = expected (or_str t cur) es"
| "expected cur (SessionReset # es) = expected None es"
| "expected cur (_ # es) = expected cur es"

fun threaded :: "jsstring option \<Rightarrow> trace_entry list \<Rightarrow> bool" where
  "threaded cur [] = True"
| "threaded cur (LiveChatMessagesList chatId tok # es) = (tok = cur \<and> threaded cur es)"
| "threaded cur (PageAnswer t # es) = threaded (or_str t cur) es"
| "threaded cur (SessionReset # es) = threaded None es"
| "threaded cur (_ # es) = threaded cur es"

fun is_fetch :: "trace_entry \<Rightarrow> bool" where
  "is_fetch (LiveChatMessagesList chatId tok) = True"
| "is_fetch _ = False"

text \<open>The chat messages among the frames a subscriber received, in the order received.\<close>

fun chat_frames :: "payload list \<Rightarrow> chat_msg list" where
  "chat_frames [] = []"
| "chat_frames (SseFrame (Chat c) # ps) = c # chat_frames ps"
| "chat_frames (_ # ps) = chat_frames ps"

text \<open>
  Oldest first by \<open>publishedAt\<close>. The stamps are ISO-8601 texts, whose order by code units
  is the order in time.
\<close>

definition chronological :: "chat_msg list \<Rightarrow> bool" where
  "chronological cs = sorted (map c_publishedAt cs)"

definition newest_first :: "item list \<Rightarrow> bool" where
  "newest_first items = sorted (rev (map (\<lambda>it. or_str (snippet_field publishedAt it) None) items))"

text \<open>The events one item makes \<open>process_item\<close> broadcast.\<close>

definition item_events :: "item \<Rightarrow> event list" where
  "item_events it =
     (if item_text it \<noteq> [] then [Chat (chat_of it)] else [])
     @ (case classifySpecialEvent it of
          None \<Rightarrow> []
        | Some (Superchat amount t) \<Rightarrow> [Toast (SuperchatToast (author_name it) amount (item_text it))]
        | Some (Membership lvl) \<Rightarrow> [Toast (MembershipToast (author_name it) lvl)]
        | Some (Gift message) \<Rightarrow> [Toast (GiftToast (author_name it) message)])"

text \<open>
  The error that ends the poll of a cycle, and the cycles that the scheduler treats as
  quota exhaustion (the chat-closed test comes first in \<open>pollLoop\<close>).
\<close>

definition poll_error :: "config \<Rightarrow> poll_env \<Rightarrow> session \<Rightarrow> state \<Rightarrow> api_error option" where
  "poll_error cfg env sess st =
     (case pollLiveChat cfg env (oauthTokens sess) st of
        (Threw e, oauth, st1) \<Rightarrow> Some e
      | (Returned r, oauth, st1) \<Rightarrow> None)"

definition quota_cycle :: "config \<Rightarrow> poll_env \<Rightarrow> session \<Rightarrow> state \<Rightarrow> bool" where
  "quota_cycle cfg env sess st =
     (ytEnabled st \<and> \<not> backoff_active (t_wake env) st
      \<and> (case poll_error cfg env sess st of
            None \<Rightarrow> False
          | Some e \<Rightarrow> isQuotaExceededError e \<and> \<not> isChatNoLongerLiveError e))"

text \<open>
  The cycles whose poll throws and that the scheduler does not treat as quota exhaustion:
  the chat-closed branch and the generic retry.
\<close>

definition other_failure :: "config \<Rightarrow> poll_env \<Rightarrow> session \<Rightarrow> state \<Rightarrow> bool" where
  "other_failure cfg env sess st =
     (ytEnabled st \<and> \<not> backoff_active (t_wake env) st
      \<and> (case poll_error cfg env sess st of
            None \<Rightarrow> False
          | Some e \<Rightarrow> \<not> (isQuotaExceededError e \<and> \<not> isChatNoLongerLiveError e)))"

text \<open>
  \<open>quota_streak cfg k st st'\<close>: from \<open>st\<close> the engine reaches \<open>st'\<close> through wakes of the timer
  none of which is a successful cycle, \<open>k\<close> of them cycles that end in quota exhaustion.
  Cycles that fail otherwise and wakes that fall into a running backoff (no poll is made)
  may lie between them, in any number.
\<close>

inductive quota_streak :: "config \<Rightarrow> nat \<Rightarrow> state \<Rightarrow> state \<Rightarrow> bool" for cfg where
  start: "quota_streak cfg 0 st st"
| quota: "quota_streak cfg k st st1 \<Longrightarrow> quota_cycle cfg env sess st1 \<Longrightarrow>
          quota_streak cfg (Suc k) st (fst (pollLoop cfg env sess st1))"
| failed: "quota_streak cfg k st st1 \<Longrightarrow> other_failure cfg env sess st1 \<Longrightarrow>
          quota_streak cfg k st (fst (pollLoop cfg env sess st1))"
| waiting: "quota_streak cfg k st st1 \<Longrightarrow> ytEnabled st1 \<Longrightarrow> backoff_active (t_wake env) st1 \<Longrightarrow>
          quota_streak cfg k st (fst (pollLoop cfg env sess st1))"

text \<open>A subscriber after the frames \<open>ps\<close> were broadcast.\<close>

definition receive :: "payload list \<Rightarrow> sink \<Rightarrow> sink" where
  "receive ps s = (if sink_fails s then s else s\<lparr>written := written s @ ps\<rparr>)"

text \<open>
  \<open>token_step st st'\<close>: the history of \<open>st'\<close> extends that of \<open>st\<close> by entries in which every
  fetch presents the expected token, and the token stored in \<open>st'\<close> is the one expected
  after them.
\<close>

definition token_step :: "state \<Rightarrow> state \<Rightarrow> bool" where
  "token_step st st' =
     (\<exists>es. history st' = history st @ es
           \<and> threaded (or_str (nextPageToken st) None) es
           \<and> expected (or_str (nextPageToken st) None) es = or_str (nextPageToken st') None)"

section \<open>Example inputs\<close>

definition ex_item :: "jsstring \<Rightarrow> jsstring option \<Rightarrow> super_chat_details option \<Rightarrow> new_sponsor_details option \<Rightarrow> item" where
  "ex_item ident txt sc ns =
     \<lparr>item_id = Some ident,
      item_snippet = Some \<lparr>displayMessage = txt, superChatDetails = sc, newSponsorDetails = ns,
                           publishedAt = None\<rparr>,
      item_authorDetails = None\<rparr>"

definition ex_sink :: "nat \<Rightarrow> bool \<Rightarrow> sink" where
  "ex_sink n f = \<lparr>sink_id = n, sink_fails = f, written = []\<rparr>"

text \<open>Two subscribers, the first of which fails on every write.\<close>

definition ex_state :: state where
  "ex_state = (initial_state True)\<lparr>sseClients := [ex_sink 1 True, ex_sink 2 False]\<rparr>"

definition ex_msg :: "jsstring \<Rightarrow> jsstring \<Rightarrow> jsstring \<Rightarrow> item" where
  "ex_msg ident text stamp =
     \<lparr>item_id = Some ident,
      item_snippet = Some \<lparr>displayMessage = Some text, superChatDetails = None,
                           newSponsorDetails = None, publishedAt = Some stamp\<rparr>,
      item_authorDetails = None\<rparr>"

definition ex_page_oldest_first :: page where
  "ex_page_oldest_first =
     \<lparr>p_items = [ex_msg (str ''a'') (str ''one'') (str ''2024-01-01T00:00:01Z''),
                 ex_msg (str ''b'') (str ''two'') (str ''2024-01-01T00:00:02Z'')],
      p_nextPageToken = Some (str ''t1''), p_pollingIntervalMillis = Some 5000\<rparr>"

definition ex_page_newest_first :: page where
  "ex_page_newest_first =
     \<lparr>p_items = [ex_msg (str ''b'') (str ''two'') (str ''2024-01-01T00:00:02Z''),
                 ex_msg (str ''a'') (str ''one'') (str ''2024-01-01T00:00:01Z'')],
      p_nextPageToken = Some (str ''t1''), p_pollingIntervalMillis = Some 5000\<rparr>"

definition ex_error :: "string \<Rightarrow> string \<Rightarrow> api_error" where
  "ex_error msg reason =
     \<lparr>e_message = Some (str msg), e_reason = Some (str reason), e_response_reason = None\<rparr>"

definition ex_env :: "api_error + page \<Rightarrow> poll_env" where
  "ex_env answer =
     \<lparr>t_wake = 100000, t_channel = 100100, t_done = 100200,
      r_channels = Inr [\<lparr>chi_id = Some (str ''UC1''), chi_title = Some (str ''ch'')\<rparr>],
      r_refresh = Inr None,
      r_channels_retry = Inr [],
      r_broadcasts = Inr [\<lparr>b_id = Some (str ''bc''), b_title = Some (str ''live''),
                           b_liveChatId = Some (str ''chat1'')\<rparr>],
      r_messages = answer\<rparr>"

definition ex_cfg :: "int \<Rightarrow> int \<Rightarrow> config" where
  "ex_cfg poll_ms backoff_max =
     \<lparr>oauthConfigured = True, YT_POLL_MS = Num poll_ms, YT_CHANNEL_TTL_MS = Num 21600000,
      YT_BACKOFF_MAX_MS = Num backoff_max\<rparr>"

text \<open>\<open>YT_POLL_MS\<close> set to a text that is not a number.\<close>

definition ex_cfg_nan :: config where
  "ex_cfg_nan = (ex_cfg 0 1800000)\<lparr>YT_POLL_MS := NaN\<rparr>"

definition ex_tokens :: tokens where
  "ex_tokens =
     \<lparr>access_token = Some (str ''at0''), refresh_token = Some (str ''rt''), expiry_date = Some 2000\<rparr>"

definition ex_session :: session where
  "ex_session = \<lparr>oauthTokens = Some ex_tokens\<rparr>"

definition ex_quota_error :: api_error where
  "ex_quota_error = ex_error ''you have exceeded your quota.'' ''quotaExceeded''"

definition ex_closed_error :: api_error where
  "ex_closed_error = ex_error ''The live chat is no longer live.'' ''liveChatEnded''"

definition ex_generic_error :: api_error where
  "ex_generic_error = ex_error ''Backend Error'' ''backendError''"

definition ex_env_at :: "int \<Rightarrow> api_error + page \<Rightarrow> poll_env" where
  "ex_env_at t answer = (ex_env answer)\<lparr>t_wake := t, t_channel := t + 100, t_done := t + 200\<rparr>"

definition ex_page_empty :: "int option \<Rightarrow> page" where
  "ex_page_empty suggested =
     \<lparr>p_items = [], p_nextPageToken = Some (str ''t1''), p_pollingIntervalMillis = suggested\<rparr>"

text \<open>The channel lookup fails and the token refresh answers with the credentials \<open>cr\<close>.\<close>

definition ex_env_refresh :: "credentials \<Rightarrow> poll_env" where
  "ex_env_refresh cr =
     (ex_env (Inr (ex_page_empty None)))
       \<lparr>r_channels := Inl (ex_error ''Invalid Credentials'' ''authError''),
        r_refresh := Inr (Some cr)\<rparr>"

text \<open>A state whose channel cache was filled at the instant \<open>at\<close>.\<close>

definition ex_state_cached :: "int \<Rightarrow> state" where
  "ex_state_cached at =
     ex_state\<lparr>authedChannel := Some \<lparr>ch_id = Some (str ''UC1''), ch_title = str ''ch''\<rparr>,
              authedChannelAt := Some at\<rparr>"

definition ex_page_token :: "jsstring option \<Rightarrow> page" where
  "ex_page_token tok = \<lparr>p_items = [], p_nextPageToken = tok, p_pollingIntervalMillis = None\<rparr>"

definition ex_run :: "action list" where
  "ex_run =
     [Connect 99000 ex_session (ex_sink 3 False),
      Wake (ex_env_at 100000 (Inr (ex_page_token (Some (str ''t1''))))),
      Wake (ex_env_at 110000 (Inr (ex_page_token (Some (str ''t2'')))))]"

section \<open>Basic facts\<close>

lemma poll_delay_is_number: "poll_delay ms = Num (the_ms (poll_delay ms))"
  by (cases ms) (simp_all add: poll_delay_def or_num_def)

lemma the_ms_poll_delay:
  "the_ms (poll_delay ms) = (case ms of NaN \<Rightarrow> 1200 | Num n \<Rightarrow> max 1200 n)"
  by (cases ms) (auto simp: poll_delay_def or_num_def)

lemma broadcastEvent_timer [simp]:
  "pollTimeout (broadcastEvent st evt) = pollTimeout st"
  "nextPollAt (broadcastEvent st evt) = nextPollAt st"
  "lastPollMsEffective (broadcastEvent st evt) = lastPollMsEffective st"
  by (simp_all add: broadcastEvent_def Let_def)

lemma broadcastEvent_keeps [simp]:
  "ytEnabled (broadcastEvent st evt) = ytEnabled st"
  "lastSeenMessageId (broadcastEvent st evt) = lastSeenMessageId st"
  "activeLiveChatId (broadcastEvent st evt) = activeLiveChatId st"
  "nextPageToken (broadcastEvent st evt) = nextPageToken st"
  "lastPollAt (broadcastEvent st evt) = lastPollAt st"
  "authedChannel (broadcastEvent st evt) = authedChannel st"
  "activeBroadcast (broadcastEvent st evt) = activeBroadcast st"
  "authedChannelAt (broadcastEvent st evt) = authedChannelAt st"
  "backoffUntil (broadcastEvent st evt) = backoffUntil st"
  "backoffMs (broadcastEvent st evt) = backoffMs st"
  "history (broadcastEvent st evt) = history st"
  by (simp_all add: broadcastEvent_def Let_def)

lemma record_entry_keeps [simp]:
  "ytEnabled (record_entry c st) = ytEnabled st"
  "sseClients (record_entry c st) = sseClients st"
  "lastSeenMessageId (record_entry c st) = lastSeenMessageId st"
  "activeLiveChatId (record_entry c st) = activeLiveChatId st"
  "nextPageToken (record_entry c st) = nextPageToken st"
  "authedChannel (record_entry c st) = authedChannel st"
  "activeBroadcast (record_entry c st) = activeBroadcast st"
  "authedChannelAt (record_entry c st) = authedChannelAt st"
  "pollTimeout (record_entry c st) = pollTimeout st"
  "backoffUntil (record_entry c st) = backoffUntil st"
  "backoffMs (record_entry c st) = backoffMs st"
  "history (record_entry c st) = history st @ [c]"
  by (simp_all add: record_entry_def)

lemma setTimeout_delay_id: "1 \<le> d \<Longrightarrow> d \<le> 2147483647 \<Longrightarrow> setTimeout_delay d = d"
  by (simp add: setTimeout_delay_def)

lemma scheduleNextPoll_keeps [simp]:
  "ytEnabled (fst (scheduleNextPoll now sess ms reason st)) = ytEnabled st"
  "lastSeenMessageId (fst (scheduleNextPoll now sess ms reason st)) = lastSeenMessageId st"
  "activeLiveChatId (fst (scheduleNextPoll now sess ms reason st)) = activeLiveChatId st"
  "nextPageToken (fst (scheduleNextPoll now sess ms reason st)) = nextPageToken st"
  "activeBroadcast (fst (scheduleNextPoll now sess ms reason st)) = activeBroadcast st"
  "authedChannel (fst (scheduleNextPoll now sess ms reason st)) = authedChannel st"
  "backoffUntil (fst (scheduleNextPoll now sess ms reason st)) = backoffUntil st"
  "backoffMs (fst (scheduleNextPoll now sess ms reason st)) = backoffMs st"
  "history (fst (scheduleNextPoll now sess ms reason st)) = history st"
  "lastPollMsEffective (fst (scheduleNextPoll now sess ms reason st)) = Some (the_ms (poll_delay ms))"
  by (simp_all add: scheduleNextPoll_def Let_def)

lemma scheduleNextPoll_armed:
  assumes "valid_time (now + the_ms (poll_delay ms))"
  shows "snd (scheduleNextPoll now sess ms reason st) = None"
    and "pollTimeout (fst (scheduleNextPoll now sess ms reason st))
           = Some \<lparr>t_delay = setTimeout_delay (the_ms (poll_delay ms)), t_session = sess,
                   t_fired = False\<rparr>"
    and "nextPollAt (fst (scheduleNextPoll now sess ms reason st))
           = Some (now + the_ms (poll_delay ms))"
  using assms by (simp_all add: scheduleNextPoll_def Let_def)

lemma scheduleNextPoll_throws:
  assumes "\<not> valid_time (now + the_ms (poll_delay ms))"
  shows "snd (scheduleNextPoll now sess ms reason st) = Some RangeError"
    and "pollTimeout (fst (scheduleNextPoll now sess ms reason st)) = clearTimeout (pollTimeout st)"
    and "nextPollAt (fst (scheduleNextPoll now sess ms reason st)) = nextPollAt st"
  using assms by (simp_all add: scheduleNextPoll_def Let_def)

lemma scheduleNextPoll_error:
  "snd (scheduleNextPoll now sess ms reason st)
     = (if valid_time (now + the_ms (poll_delay ms)) then None else Some RangeError)"
  by (simp add: scheduleNextPoll_def Let_def)

lemma resetLiveState_sets [simp]:
  "lastSeenMessageId (resetLiveState reason st) = None"
  "nextPageToken (resetLiveState reason st) = None"
  "activeLiveChatId (resetLiveState reason st) = None"
  "activeBroadcast (resetLiveState reason st) = None"
  "history (resetLiveState reason st) = history st @ [SessionReset]"
  "ytEnabled (resetLiveState reason st) = ytEnabled st"
  "pollTimeout (resetLiveState reason st) = pollTimeout st"
  "backoffUntil (resetLiveState reason st) = backoffUntil st"
  "backoffMs (resetLiveState reason st) = backoffMs st"
  by (simp_all add: resetLiveState_def Let_def record_entry_def split: option.splits)

lemma stopPolling_sets [simp]:
  "pollTimeout (stopPolling reason st) = None"
  "nextPollAt (stopPolling reason st) = None"
  "history (stopPolling reason st) = history st"
  "nextPageToken (stopPolling reason st) = nextPageToken st"
  "ytEnabled (stopPolling reason st) = ytEnabled st"
  by (simp_all add: stopPolling_def Let_def split: option.splits)

lemma process_item_keeps [simp]:
  "ytEnabled (process_item st it) = ytEnabled st"
  "lastSeenMessageId (process_item st it) = lastSeenMessageId st"
  "activeLiveChatId (process_item st it) = activeLiveChatId st"
  "nextPageToken (process_item st it) = nextPageToken st"
  "pollTimeout (process_item st it) = pollTimeout st"
  "backoffUntil (process_item st it) = backoffUntil st"
  "backoffMs (process_item st it) = backoffMs st"
  "history (process_item st it) = history st"
  by (simp_all add: process_item_def Let_def split: option.splits special.splits)

lemma process_items_keeps [simp]:
  "ytEnabled (foldl process_item st its) = ytEnabled st"
  "lastSeenMessageId (foldl process_item st its) = lastSeenMessageId st"
  "activeLiveChatId (foldl process_item st its) = activeLiveChatId st"
  "nextPageToken (foldl process_item st its) = nextPageToken st"
  "pollTimeout (foldl process_item st its) = pollTimeout st"
  "backoffUntil (foldl process_item st its) = backoffUntil st"
  "backoffMs (foldl process_item st its) = backoffMs st"
  "history (foldl process_item st its) = history st"
  by (induction its arbitrary: st) simp_all

lemma announce_channel_keeps [simp]:
  "ytEnabled (announce_channel st) = ytEnabled st"
  "activeLiveChatId (announce_channel st) = activeLiveChatId st"
  "nextPageToken (announce_channel st) = nextPageToken st"
  "pollTimeout (announce_channel st) = pollTimeout st"
  "backoffUntil (announce_channel st) = backoffUntil st"
  "backoffMs (announce_channel st) = backoffMs st"
  "history (announce_channel st) = history st"
  by (simp_all add: announce_channel_def split: option.splits)

lemma refresh_channel_keeps [simp]:
  "ytEnabled (snd (refresh_channel cfg env tk st)) = ytEnabled st"
  "activeLiveChatId (snd (refresh_channel cfg env tk st)) = activeLiveChatId st"
  "nextPageToken (snd (refresh_channel cfg env tk st)) = nextPageToken st"
  "pollTimeout (snd (refresh_channel cfg env tk st)) = pollTimeout st"
  "backoffUntil (snd (refresh_channel cfg env tk st)) = backoffUntil st"
  "backoffMs (snd (refresh_channel cfg env tk st)) = backoffMs st"
  by (simp_all add: refresh_channel_def Let_def split: option.splits sum.splits)

lemma getLiveChatId_keeps [simp]:
  "ytEnabled (snd (getLiveChatId resp st)) = ytEnabled st"
  "nextPageToken (snd (getLiveChatId resp st)) = nextPageToken st"
  "pollTimeout (snd (getLiveChatId resp st)) = pollTimeout st"
  "backoffUntil (snd (getLiveChatId resp st)) = backoffUntil st"
  "backoffMs (snd (getLiveChatId resp st)) = backoffMs st"
  "history (snd (getLiveChatId resp st)) = history st @ [LiveBroadcastsList]"
  by (simp_all add: getLiveChatId_def Let_def split: sum.splits list.splits)

lemma fetch_page_keeps [simp]:
  "ytEnabled (snd (fetch_page env chatId st)) = ytEnabled st"
  "pollTimeout (snd (fetch_page env chatId st)) = pollTimeout st"
  "backoffUntil (snd (fetch_page env chatId st)) = backoffUntil st"
  "backoffMs (snd (fetch_page env chatId st)) = backoffMs st"
  by (simp_all add: fetch_page_def Let_def split: sum.splits list.splits)

lemma pollLiveChat_keeps [simp]:
  "ytEnabled (snd (snd (pollLiveChat cfg env oauth st))) = ytEnabled st"
  "pollTimeout (snd (snd (pollLiveChat cfg env oauth st))) = pollTimeout st"
  "backoffUntil (snd (snd (pollLiveChat cfg env oauth st))) = backoffUntil st"
  "backoffMs (snd (snd (pollLiveChat cfg env oauth st))) = backoffMs st"
  by (simp_all add: pollLiveChat_def Let_def split_beta split: option.splits sum.splits prod.splits)

lemma for_each_client_delivers: "for_each_client p ss = Inr (map (deliver p) ss)"
  by (induction ss) (simp_all add: try_write_def deliver_def split: sum.splits)

lemma broadcastEvent_exn_total: "broadcastEvent_exn st evt = Inr (broadcastEvent st evt)"
  by (simp add: broadcastEvent_exn_def broadcastEvent_def Let_def for_each_client_delivers)

lemma deliver_fields [simp]:
  "sink_id (deliver p s) = sink_id s"
  "sink_fails (deliver p s) = sink_fails s"
  "written (deliver p s) = (if sink_fails s then written s else written s @ [p])"
  by (simp_all add: deliver_def res_write_def)

lemma sseClients_broadcastEvent:
  "sseClients (broadcastEvent st evt) = map (deliver (SseFrame evt)) (sseClients st)"
  by (simp add: broadcastEvent_def Let_def)

lemma trim_all_space:
  assumes "\<forall>c \<in> set s. is_space c"
  shows "trim s = []"
proof -
  have "dropWhile is_space s = []"
    using assms by (simp add: dropWhile_eq_Nil_conv)
  show ?thesis
    unfolding trim_def \<open>dropWhile is_space s = []\<close> by simp
qed

lemma patterns_not_nullable: "re \<in> set patterns \<Longrightarrow> \<not> nullable re"
  by (auto simp: patterns_def Opt_def Plus_def str_def membership_ja_def gift_ja_def shimashita_ja_def)

lemma no_gift_in_empty: "\<not> list_ex (\<lambda>re. regex_test re []) patterns"
  using patterns_not_nullable by (auto simp: list_ex_iff)

lemma regex_test_prefix: "matches_prefix r s \<Longrightarrow> regex_test r s"
  by (cases s) auto

lemma pattern_hit: "r \<in> set patterns \<Longrightarrow> regex_test r s \<Longrightarrow> list_ex (\<lambda>re. regex_test re s) patterns"
  by (auto simp: list_ex_iff)

lemma deliver_receive: "deliver p = receive [p]"
  by (rule ext) (simp add: deliver_def receive_def res_write_def)

lemma receive_receive: "receive ps (receive qs s) = receive (qs @ ps) s"
  by (simp add: receive_def)

lemma receive_Nil: "receive [] s = s"
  by (simp add: receive_def)

lemma map_receive_Nil: "map (receive []) ss = ss"
  by (induction ss) (simp_all add: receive_Nil)

lemma seen_case_keeps [simp]:
  "sseClients (case xs of [] \<Rightarrow> a | x # ys \<Rightarrow> a\<lparr>lastSeenMessageId := f x\<rparr>) = sseClients a"
  "nextPageToken (case xs of [] \<Rightarrow> a | x # ys \<Rightarrow> a\<lparr>lastSeenMessageId := f x\<rparr>) = nextPageToken a"
  "history (case xs of [] \<Rightarrow> a | x # ys \<Rightarrow> a\<lparr>lastSeenMessageId := f x\<rparr>) = history a"
  by (cases xs; simp)+

lemma map_receive_receive: "map (receive ps) (map (receive qs) ss) = map (receive (qs @ ps)) ss"
  by (simp add: receive_receive comp_def)

lemma sseClients_broadcast_receive:
  "sseClients (broadcastEvent st evt) = map (receive [SseFrame evt]) (sseClients st)"
  by (simp add: sseClients_broadcastEvent deliver_receive)

lemma sseClients_process_item:
  "sseClients (process_item st it) = map (receive (map SseFrame (item_events it))) (sseClients st)"
  by (simp add: process_item_def item_events_def Let_def sseClients_broadcast_receive
        receive_receive receive_Nil map_receive_Nil split: option.splits special.splits)

lemma sseClients_process_items:
  "sseClients (foldl process_item st its)
     = map (receive (map SseFrame (concat (map item_events its)))) (sseClients st)"
proof (induction its arbitrary: st)
  case Nil
  show ?case by (simp add: receive_Nil)
next
  case (Cons it its)
  show ?case
    by (simp add: Cons.IH sseClients_process_item receive_receive)
qed

lemma chat_frames_append: "chat_frames (ps @ qs) = chat_frames ps @ chat_frames qs"
  by (induction ps rule: chat_frames.induct) simp_all

lemma chat_frames_item_events:
  "chat_frames (map SseFrame (item_events it)) = (if item_text it \<noteq> [] then [chat_of it] else [])"
  by (simp add: item_events_def split: option.splits special.splits)

lemma chat_frames_items:
  "chat_frames (map SseFrame (concat (map item_events its)))
     = map chat_of (filter (\<lambda>it. item_text it \<noteq> []) its)"
  by (induction its) (simp_all add: chat_frames_append chat_frames_item_events)

lemma sseClients_fetch_page:
  assumes "r_messages env = Inr pg"
  shows "sseClients (snd (fetch_page env chatId st))
     = map (receive (SseFrame (Status Info Fetching)
                     # map SseFrame (concat (map item_events (rev (p_items pg))))
                     @ [SseFrame (Status Info (FetchDone (length (p_items pg))
                           (truthy_str (or_str (p_nextPageToken pg) (nextPageToken st)))
                           (Num (case p_pollingIntervalMillis pg of None \<Rightarrow> 0 | Some n \<Rightarrow> n))))]))
         (sseClients st)"
  using assms
  by (simp add: fetch_page_def Let_def sseClients_broadcast_receive sseClients_process_items
        receive_receive)


lemma written_receive [simp]:
  "written (receive ps s) = (if sink_fails s then written s else written s @ ps)"
  "sink_fails (receive ps s) = sink_fails s"
  "sink_id (receive ps s) = sink_id s"
  by (simp_all add: receive_def)

lemma publishedAt_chat_of [simp]:
  "c_publishedAt (chat_of it) = or_str (snippet_field publishedAt it) None"
  "c_id (chat_of it) = item_id it"
  by (simp_all add: chat_of_def Let_def)

lemma chat_frames_status [simp]: "chat_frames [SseFrame (Status l m)] = []"
  by simp

lemma fst_fetch_page:
  "fst (fetch_page env chatId st)
     = (case r_messages env of
          Inl e \<Rightarrow> Threw e
        | Inr pg \<Rightarrow> Returned (PollResult (case p_pollingIntervalMillis pg of
                                           None \<Rightarrow> None
                                         | Some n \<Rightarrow> if n \<noteq> 0 then Some n else None)))"
  by (simp add: fetch_page_def Let_def split: sum.splits option.splits)

lemma pollLiveChat_returned:
  assumes "fst (pollLiveChat cfg env oauth st) = Returned r"
  shows "r = Undefined
         \<or> (\<exists>pg. r_messages env = Inr pg
                 \<and> r = PollResult (case p_pollingIntervalMillis pg of
                                      None \<Rightarrow> None
                                    | Some n \<Rightarrow> if n \<noteq> 0 then Some n else None))"
  using assms
  by (auto simp: pollLiveChat_def Let_def split_beta fst_fetch_page
           split: if_splits option.splits sum.splits prod.splits)

lemma not_backoff_active:
  "\<not> backoff_active now st \<Longrightarrow>
     (case backoffUntil st of None \<Rightarrow> None | Some u \<Rightarrow> if now < u then Some (u - now) else None) = None"
  by (simp add: backoff_active_def split: option.splits)

lemma the_ms_Num_max [simp]: "the_ms (poll_delay (Num n)) = max 1200 n"
  by (simp add: the_ms_poll_delay)

lemma fst_pollLiveChat:
  "fst (pollLiveChat cfg env oauth st)
     = (if \<not> oauthConfigured cfg \<or> oauth = None then Returned Undefined
        else if truthy_str (activeLiveChatId st) then fst (fetch_page env [] st)
        else (case r_broadcasts env of
                Inl e \<Rightarrow> Threw e
              | Inr [] \<Rightarrow> Returned Undefined
              | Inr (active # rest) \<Rightarrow>
                  if truthy_str (b_liveChatId active) then fst (fetch_page env [] st)
                  else Returned Undefined))"
  by (auto simp: pollLiveChat_def Let_def split_beta fst_fetch_page getLiveChatId_def or_str_def
           split: option.splits sum.splits list.splits)

lemma pollLiveChat_triple:
  "pollLiveChat cfg env oauth st
     = (fst (pollLiveChat cfg env oauth st), fst (snd (pollLiveChat cfg env oauth st)),
        snd (snd (pollLiveChat cfg env oauth st)))"
  by simp

lemmas eval_env = ex_env_def ex_cfg_def ex_session_def ex_state_def initial_state_def
  ex_sink_def ex_page_empty_def backoff_active_def

lemma range_error_generic:
  "\<not> isQuotaExceededError range_error \<and> \<not> isChatNoLongerLiveError range_error"
  by (simp add: range_error_def isQuotaExceededError_def isChatNoLongerLiveError_def
        error_reason_def toLowerCase_def lower_unit_def str_def or_str_def)

lemma catch_block_keeps [simp]:
  "ytEnabled (fst (catch_block cfg now sess e st)) = ytEnabled st"
  by (simp add: catch_block_def Let_def split: jsnum.splits)

lemma catch_block_other:
  assumes "\<not> (isQuotaExceededError e \<and> \<not> isChatNoLongerLiveError e)"
  shows "backoffMs (fst (catch_block cfg now sess e st)) = backoffMs st"
    and "backoffUntil (fst (catch_block cfg now sess e st)) = backoffUntil st"
  using assms by (auto simp: catch_block_def Let_def)

lemma catch_block_quota:
  assumes q: "isQuotaExceededError e" and nc: "\<not> isChatNoLongerLiveError e"
      and mx: "YT_BACKOFF_MAX_MS cfg = Num M"
      and num: "backoffMs st = Num b"
      and d: "d = (if b \<noteq> 0 then min (b * 2) M else min 60000 M)"
      and v1: "valid_time (now + d)"
      and v2: "valid_time (now + max 1200 d)"
  shows "snd (catch_block cfg now sess e st) = None
         \<and> backoffMs (fst (catch_block cfg now sess e st)) = Num d
         \<and> backoffUntil (fst (catch_block cfg now sess e st)) = Some (now + d)
         \<and> lastPollMsEffective (fst (catch_block cfg now sess e st)) = Some (max 1200 d)
         \<and> nextPollAt (fst (catch_block cfg now sess e st)) = Some (now + max 1200 d)
         \<and> pollTimeout (fst (catch_block cfg now sess e st))
             = Some \<lparr>t_delay = setTimeout_delay (max 1200 d), t_session = sess, t_fired = False\<rparr>"
proof -
  have b: "next_backoff cfg (backoffMs st) = Num d"
    using mx num d by (simp add: next_backoff_def)
  have v: "valid_time (now + the_ms (poll_delay (Num d)))"
    using v2 by simp
  show ?thesis
    using q nc v1
    by (simp add: catch_block_def Let_def b scheduleNextPoll_armed [OF v])
qed

lemma after_poll_keeps [simp]:
  "ytEnabled (fst (after_poll cfg now sess r st)) = ytEnabled st"
  "backoffMs (fst (after_poll cfg now sess r st)) = Num 0"
  "backoffUntil (fst (after_poll cfg now sess r st)) = None"
proof -
  have other: "\<not> (isQuotaExceededError range_error \<and> \<not> isChatNoLongerLiveError range_error)"
    using range_error_generic by simp
  show "ytEnabled (fst (after_poll cfg now sess r st)) = ytEnabled st"
    by (simp add: after_poll_def Let_def split: option.splits)
  show "backoffMs (fst (after_poll cfg now sess r st)) = Num 0"
    by (simp add: after_poll_def Let_def catch_block_other [OF other] split: option.splits)
  show "backoffUntil (fst (after_poll cfg now sess r st)) = None"
    by (simp add: after_poll_def Let_def catch_block_other [OF other] split: option.splits)
qed

lemma pollLoop_threw:
  assumes "ytEnabled st" and nb: "\<not> backoff_active (t_wake env) st"
      and thrown: "pollLiveChat cfg env (oauthTokens sess) st = (Threw e, oauth, st1)"
  shows "pollLoop cfg env sess st = catch_block cfg (t_done env) (sess\<lparr>oauthTokens := oauth\<rparr>) e st1"
  using assms(1) by (simp add: pollLoop_def not_backoff_active [OF nb] thrown)

lemma pollLoop_returned:
  assumes "ytEnabled st" and nb: "\<not> backoff_active (t_wake env) st"
      and ok: "pollLiveChat cfg env (oauthTokens sess) st = (Returned r, oauth, st1)"
  shows "pollLoop cfg env sess st = after_poll cfg (t_done env) (sess\<lparr>oauthTokens := oauth\<rparr>) r st1"
  using assms(1) by (simp add: pollLoop_def not_backoff_active [OF nb] ok)

lemma pollLoop_quota_step:
  assumes qc: "quota_cycle cfg env sess st"
      and mx: "YT_BACKOFF_MAX_MS cfg = Num M"
      and num: "backoffMs st = Num b"
      and d: "d = (if b \<noteq> 0 then min (b * 2) M else min 60000 M)"
      and v1: "valid_time (t_done env + d)"
      and v2: "valid_time (t_done env + max 1200 d)"
  shows "snd (pollLoop cfg env sess st) = None
         \<and> backoffMs (fst (pollLoop cfg env sess st)) = Num d
         \<and> backoffUntil (fst (pollLoop cfg env sess st)) = Some (t_done env + d)
         \<and> lastPollMsEffective (fst (pollLoop cfg env sess st)) = Some (max 1200 d)
         \<and> nextPollAt (fst (pollLoop cfg env sess st)) = Some (t_done env + max 1200 d)
         \<and> map_option t_delay (pollTimeout (fst (pollLoop cfg env sess st)))
             = Some (setTimeout_delay (max 1200 d))"
proof -
  from qc obtain e oauth st1 where
        en: "ytEnabled st" and nb: "\<not> backoff_active (t_wake env) st"
    and thrown: "pollLiveChat cfg env (oauthTokens sess) st = (Threw e, oauth, st1)"
    and q: "isQuotaExceededError e" and nc: "\<not> isChatNoLongerLiveError e"
    by (auto simp: quota_cycle_def poll_error_def split: option.splits prod.splits outcome.splits)
  have "backoffMs (snd (snd (pollLiveChat cfg env (oauthTokens sess) st))) = backoffMs st"
    by simp
  then have b1: "backoffMs st1 = Num b"
    using thrown num by simp
  show ?thesis
    unfolding pollLoop_threw [OF en nb thrown]
    using catch_block_quota [OF q nc mx b1 d v1 v2, of "sess\<lparr>oauthTokens := oauth\<rparr>"]
    by simp
qed

lemma pollLoop_quota_backoffMs:
  assumes qc: "quota_cycle cfg env sess st"
      and mx: "YT_BACKOFF_MAX_MS cfg = Num M"
      and num: "backoffMs st = Num b"
  shows "backoffMs (fst (pollLoop cfg env sess st))
           = Num (if b \<noteq> 0 then min (b * 2) M else min 60000 M)"
proof -
  from qc obtain e oauth st1 where
        en: "ytEnabled st" and nb: "\<not> backoff_active (t_wake env) st"
    and thrown: "pollLiveChat cfg env (oauthTokens sess) st = (Threw e, oauth, st1)"
    and q: "isQuotaExceededError e" and nc: "\<not> isChatNoLongerLiveError e"
    by (auto simp: quota_cycle_def poll_error_def split: option.splits prod.splits outcome.splits)
  have "backoffMs (snd (snd (pollLiveChat cfg env (oauthTokens sess) st))) = backoffMs st"
    by simp
  then have b1: "backoffMs st1 = Num b"
    using thrown num by simp
  have b: "next_backoff cfg (backoffMs st1)
             = Num (if b \<noteq> 0 then min (b * 2) M else min 60000 M)"
    using mx b1 by (simp add: next_backoff_def)
  show ?thesis
    unfolding pollLoop_threw [OF en nb thrown]
    using q nc by (simp add: catch_block_def Let_def b)
qed

lemma pollLoop_other_failure:
  assumes "other_failure cfg env sess st"
  shows "backoffMs (fst (pollLoop cfg env sess st)) = backoffMs st"
    and "backoffUntil (fst (pollLoop cfg env sess st)) = backoffUntil st"
proof -
  from assms obtain e oauth st1 where
        en: "ytEnabled st" and nb: "\<not> backoff_active (t_wake env) st"
    and thrown: "pollLiveChat cfg env (oauthTokens sess) st = (Threw e, oauth, st1)"
    and other: "\<not> (isQuotaExceededError e \<and> \<not> isChatNoLongerLiveError e)"
    by (auto simp: other_failure_def poll_error_def split: option.splits prod.splits outcome.splits)
  have "backoffMs (snd (snd (pollLiveChat cfg env (oauthTokens sess) st))) = backoffMs st"
       "backoffUntil (snd (snd (pollLiveChat cfg env (oauthTokens sess) st))) = backoffUntil st"
    by simp_all
  then have kept: "backoffMs st1 = backoffMs st" "backoffUntil st1 = backoffUntil st"
    using thrown by simp_all
  show "backoffMs (fst (pollLoop cfg env sess st)) = backoffMs st"
    unfolding pollLoop_threw [OF en nb thrown]
    by (simp add: catch_block_other(1) [OF other] kept)
  show "backoffUntil (fst (pollLoop cfg env sess st)) = backoffUntil st"
    unfolding pollLoop_threw [OF en nb thrown]
    by (simp add: catch_block_other(2) [OF other] kept)
qed

lemma pollLoop_waiting:
  assumes "ytEnabled st" and "backoff_active (t_wake env) st"
  shows "backoffMs (fst (pollLoop cfg env sess st)) = backoffMs st"
  using assms
  by (simp add: pollLoop_def backoff_active_def split: option.splits)

lemma streak_backoff:
  assumes "quota_streak cfg k st st1"
      and "backoffMs st = Num 0"
      and "YT_BACKOFF_MAX_MS cfg = Num M"
      and "0 \<le> M"
  shows "backoffMs st1 = Num (if k = 0 then 0 else min (60000 * 2 ^ (k - 1)) M)"
  using assms
proof (induction rule: quota_streak.induct)
  case (start st)
  then show ?case by simp
next
  case (quota k st st1 env sess)
  then have prev: "backoffMs st1 = Num (if k = 0 then 0 else min (60000 * 2 ^ (k - 1)) M)"
    by simp
  have pos: "(0::int) < 60000 * 2 ^ (k - 1)"
    by simp
  have dbl: "k \<noteq> 0 \<Longrightarrow> (60000::int) * 2 ^ k = 2 * (60000 * 2 ^ (k - 1))"
    by (cases k) simp_all
  show ?case
    using pollLoop_quota_backoffMs [OF quota.hyps(2) quota.prems(2) prev] quota.prems(3) pos dbl
    by (cases "k = 0") (auto simp: min_def)
next
  case (failed k st st1 env sess)
  then show ?case
    by (simp add: pollLoop_other_failure)
next
  case (waiting k st st1 env sess)
  then show ?case
    by (simp add: pollLoop_waiting)
qed

lemma poll_error_fst:
  "poll_error cfg env sess st
     = (case fst (pollLiveChat cfg env (oauthTokens sess) st) of
          Threw e \<Rightarrow> Some e
        | Returned r \<Rightarrow> None)"
  by (simp add: poll_error_def split: prod.splits outcome.splits)

lemma pollLoop_success_resets:
  assumes "ytEnabled st" and nb: "\<not> backoff_active (t_wake env) st"
      and ok: "pollLiveChat cfg env (oauthTokens sess) st = (Returned r, oauth, st1)"
  shows "backoffMs (fst (pollLoop cfg env sess st)) = Num 0
         \<and> backoffUntil (fst (pollLoop cfg env sess st)) = None"
  by (simp add: pollLoop_returned [OF assms])

lemma pollLoop_keeps_enabled:
  "ytEnabled (fst (pollLoop cfg env sess st)) = ytEnabled st"
proof -
  obtain out oauth st1 where p: "pollLiveChat cfg env (oauthTokens sess) st = (out, oauth, st1)"
    by (cases "pollLiveChat cfg env (oauthTokens sess) st")
  have "ytEnabled (snd (snd (pollLiveChat cfg env (oauthTokens sess) st))) = ytEnabled st"
    by simp
  then have "ytEnabled st1 = ytEnabled st"
    using p by simp
  then show ?thesis
    by (simp add: pollLoop_def p Let_def split: option.splits outcome.splits)
qed

lemmas eval_error = isQuotaExceededError_def isChatNoLongerLiveError_def error_reason_def
  toLowerCase_def lower_unit_def str_def ex_error_def or_str_def ex_quota_error_def
  ex_closed_error_def ex_generic_error_def

lemma ex_other_failure:
  assumes "ytEnabled st" and "\<not> backoff_active t st"
  shows "other_failure (ex_cfg p m) (ex_env_at t (Inl ex_generic_error)) ex_session st"
proof -
  have "fst (pollLiveChat (ex_cfg p m) (ex_env_at t (Inl ex_generic_error)) (oauthTokens ex_session) st)
          = Threw ex_generic_error"
    by (simp add: fst_pollLiveChat fst_fetch_page ex_env_at_def ex_env_def ex_cfg_def
          ex_session_def str_def)
  moreover have "\<not> isQuotaExceededError ex_generic_error"
    by (simp add: eval_error)
  ultimately show ?thesis
    using assms by (simp add: other_failure_def poll_error_fst ex_env_at_def)
qed

lemma ex_quota_cycle:
  assumes "ytEnabled st" and "\<not> backoff_active t st"
  shows "quota_cycle (ex_cfg p m) (ex_env_at t (Inl ex_quota_error)) ex_session st"
proof -
  have "fst (pollLiveChat (ex_cfg p m) (ex_env_at t (Inl ex_quota_error)) (oauthTokens ex_session) st)
          = Threw ex_quota_error"
    by (simp add: fst_pollLiveChat fst_fetch_page ex_env_at_def ex_env_def ex_cfg_def
          ex_session_def str_def)
  moreover have "isQuotaExceededError ex_quota_error \<and> \<not> isChatNoLongerLiveError ex_quota_error"
    by (simp add: eval_error)
  ultimately show ?thesis
    using assms by (simp add: quota_cycle_def poll_error_fst ex_env_at_def)
qed

lemma expected_append: "expected cur (es @ fs) = expected (expected cur es) fs"
  by (induction cur es rule: expected.induct) simp_all

lemma threaded_append: "threaded cur (es @ fs) = (threaded cur es \<and> threaded (expected cur es) fs)"
  by (induction cur es rule: threaded.induct) simp_all

lemma or_str_norm: "or_str t (or_str x None) = or_str (or_str t x) None"
  by (simp add: or_str_def)

lemma token_step_refl: "token_step st st"
  by (simp add: token_step_def)

lemma token_step_ext:
  assumes "token_step st a"
      and "history b = history a @ es"
      and "threaded (or_str (nextPageToken a) None) es"
      and "expected (or_str (nextPageToken a) None) es = or_str (nextPageToken b) None"
  shows "token_step st b"
proof -
  from assms(1) obtain ds where
    ds: "history a = history st @ ds" "threaded (or_str (nextPageToken st) None) ds"
        "expected (or_str (nextPageToken st) None) ds = or_str (nextPageToken a) None"
    by (auto simp: token_step_def)
  have "history b = history st @ (ds @ es)"
    using ds(1) assms(2) by simp
  moreover have "threaded (or_str (nextPageToken st) None) (ds @ es)"
    using ds(2,3) assms(3) by (simp add: threaded_append)
  moreover have "expected (or_str (nextPageToken st) None) (ds @ es) = or_str (nextPageToken b) None"
    using ds(3) assms(4) by (simp add: expected_append)
  ultimately show ?thesis
    unfolding token_step_def by blast
qed

lemma token_step_same:
  assumes "token_step st a" and "history b = history a" and "nextPageToken b = nextPageToken a"
  shows "token_step st b"
  by (rule token_step_ext [OF assms(1), where es = "[]"]) (simp_all add: assms)

lemma token_step_trans:
  assumes "token_step st a" and "token_step a b"
  shows "token_step st b"
proof -
  from assms(2) obtain es where
    "history b = history a @ es" "threaded (or_str (nextPageToken a) None) es"
    "expected (or_str (nextPageToken a) None) es = or_str (nextPageToken b) None"
    by (auto simp: token_step_def)
  then show ?thesis
    by (rule token_step_ext [OF assms(1)])
qed

lemma token_step_broadcast: "token_step st a \<Longrightarrow> token_step st (broadcastEvent a evt)"
  by (erule token_step_same) simp_all

lemma token_step_schedule:
  "token_step st a \<Longrightarrow> token_step st (fst (scheduleNextPoll now sess ms reason a))"
  by (erule token_step_same) simp_all

lemma token_step_stop: "token_step st a \<Longrightarrow> token_step st (stopPolling reason a)"
  by (erule token_step_same) simp_all

lemma token_step_items: "token_step st a \<Longrightarrow> token_step st (foldl process_item a its)"
  by (erule token_step_same) simp_all

lemma token_step_announce: "token_step st a \<Longrightarrow> token_step st (announce_channel a)"
  by (erule token_step_same) simp_all

lemma token_step_quiet:
  assumes "token_step st a" and "c \<in> {ChannelsList, RefreshAccessToken, LiveBroadcastsList}"
  shows "token_step st (record_entry c a)"
  using assms(2)
  by (intro token_step_ext [OF assms(1), where es = "[c]"]) auto

lemma token_step_reset: "token_step st a \<Longrightarrow> token_step st (resetLiveState reason a)"
  by (erule token_step_ext [where es = "[SessionReset]"]) (simp_all add: or_str_def)

lemma history_refresh_channel:
  "\<exists>es. history (snd (refresh_channel cfg env tk st)) = history st @ es
        \<and> set es \<subseteq> {ChannelsList, RefreshAccessToken}"
  by (simp add: refresh_channel_def Let_def split: option.splits sum.splits)

lemma quiet_entries:
  assumes "set es \<subseteq> {ChannelsList, RefreshAccessToken, LiveBroadcastsList}"
  shows "threaded cur es \<and> expected cur es = cur"
  using assms by (induction es) auto

lemma token_step_refresh:
  assumes "token_step st a"
  shows "token_step st (snd (refresh_channel cfg env tk a))"
proof -
  obtain es where es: "history (snd (refresh_channel cfg env tk a)) = history a @ es"
      "set es \<subseteq> {ChannelsList, RefreshAccessToken}"
    using history_refresh_channel by blast
  have "set es \<subseteq> {ChannelsList, RefreshAccessToken, LiveBroadcastsList}"
    using es(2) by auto
  from quiet_entries [OF this] show ?thesis
    by (intro token_step_ext [OF assms es(1)]) simp_all
qed

lemma token_step_lookup:
  assumes "token_step st a"
  shows "token_step st (snd (getLiveChatId resp a))"
  by (rule token_step_ext [OF assms, where es = "[LiveBroadcastsList]"]) simp_all

lemma history_fetch_page:
  "history (snd (fetch_page env chatId st))
     = history st @ LiveChatMessagesList chatId (or_str (nextPageToken st) None)
         # (case r_messages env of Inl e \<Rightarrow> [] | Inr pg \<Rightarrow> [PageAnswer (p_nextPageToken pg)])"
  by (simp add: fetch_page_def Let_def split: sum.splits)

lemma nextPageToken_fetch_page:
  "nextPageToken (snd (fetch_page env chatId st))
     = (case r_messages env of
          Inl e \<Rightarrow> nextPageToken st
        | Inr pg \<Rightarrow> or_str (p_nextPageToken pg) (nextPageToken st))"
  by (simp add: fetch_page_def Let_def split: sum.splits)

lemma token_step_fetch:
  assumes "token_step st a"
  shows "token_step st (snd (fetch_page env chatId a))"
  by (rule token_step_ext [OF assms history_fetch_page])
     (simp_all add: nextPageToken_fetch_page or_str_norm split: sum.splits)

lemma token_step_pollLiveChat:
  assumes "token_step st a"
  shows "token_step st (snd (snd (pollLiveChat cfg env oauth a)))"
proof (cases "\<not> oauthConfigured cfg \<or> oauth = None")
  case True
  then show ?thesis
    using assms by (auto simp: pollLiveChat_def)
next
  case False
  then obtain tk where tk: "oauth = Some tk" and conf: "oauthConfigured cfg"
    by auto
  let ?a0 = "a\<lparr>lastPollAt := Some (t_wake env)\<rparr>"
  let ?a1 = "snd (refresh_channel cfg env tk ?a0)"
  have s0: "token_step st ?a0"
    by (rule token_step_same [OF assms]) simp_all
  have s1: "token_step st ?a1"
    by (rule token_step_refresh [OF s0])
  show ?thesis
  proof (cases "truthy_str (activeLiveChatId ?a1)")
    case True
    then show ?thesis
      using token_step_fetch [OF s1] conf tk
      by (simp add: pollLiveChat_def Let_def split_beta)
  next
    case False
    let ?a2 = "snd (getLiveChatId (r_broadcasts env) ?a1)"
    have s2: "token_step st ?a2"
      by (rule token_step_lookup [OF s1])
    have s3: "token_step st (?a2\<lparr>activeLiveChatId := found\<rparr>)" for found
      by (rule token_step_same [OF s2]) simp_all
    show ?thesis
      using False conf tk s2 token_step_broadcast [OF s3]
            token_step_fetch [OF token_step_broadcast [OF s3]]
      by (simp add: pollLiveChat_def Let_def split_beta split: sum.splits option.splits)
  qed
qed

lemma token_step_catch:
  assumes "token_step st a"
  shows "token_step st (fst (catch_block cfg now sess e a))"
proof -
  have s3: "token_step st (broadcastEvent a evt)" for evt
    by (rule token_step_broadcast [OF assms])
  have s4: "token_step st
              (broadcastEvent (broadcastEvent a evt\<lparr>backoffMs := b, backoffUntil := u\<rparr>) evt')"
    for evt b u evt'
    by (rule token_step_broadcast, rule token_step_same [OF s3 [of evt]]) simp_all
  have s5: "token_step st (broadcastEvent a evt\<lparr>backoffMs := b\<rparr>)" for evt b
    by (rule token_step_same [OF s3 [of evt]]) simp_all
  show ?thesis
    using s3 s4 s5
    by (simp add: catch_block_def Let_def token_step_schedule token_step_reset
             split: jsnum.splits)
qed

lemma token_step_after:
  assumes "token_step st a"
  shows "token_step st (fst (after_poll cfg now sess r a))"
proof -
  have s2: "token_step st (a\<lparr>backoffUntil := None, backoffMs := Num 0\<rparr>)"
    by (rule token_step_same [OF assms]) simp_all
  show ?thesis
    by (simp add: after_poll_def Let_def token_step_schedule [OF s2]
          token_step_catch [OF token_step_schedule [OF s2]] split: option.splits)
qed

lemma token_step_pollLoop:
  assumes "token_step st a"
  shows "token_step st (fst (pollLoop cfg env sess a))"
proof -
  obtain out oauth a1 where p: "pollLiveChat cfg env (oauthTokens sess) a = (out, oauth, a1)"
    by (cases "pollLiveChat cfg env (oauthTokens sess) a")
  have s1: "token_step st a1"
    using token_step_pollLiveChat [OF assms, of cfg env "oauthTokens sess"] p by simp
  show ?thesis
    using assms s1
    by (simp add: pollLoop_def p token_step_schedule token_step_stop token_step_catch
             token_step_after split: option.splits outcome.splits)
qed

lemma token_step_wake:
  assumes "token_step st a"
  shows "token_step st (fst (wake cfg env a))"
proof (cases "pollTimeout a")
  case None
  then show ?thesis
    using assms by (simp add: wake_def)
next
  case (Some tm)
  have "token_step st (a\<lparr>pollTimeout := Some (tm\<lparr>t_fired := True\<rparr>)\<rparr>)"
    by (rule token_step_same [OF assms]) simp_all
  from token_step_pollLoop [OF this] show ?thesis
    using Some assms by (simp add: wake_def)
qed

lemma token_step_switch:
  assumes "token_step st a"
  shows "token_step st (post_yt_enabled b a)"
proof -
  have "token_step st (a\<lparr>ytEnabled := b, backoffUntil := None, backoffMs := Num 0\<rparr>)"
    by (rule token_step_same [OF assms]) simp_all
  then show ?thesis
    by (cases b) (simp_all add: post_yt_enabled_def Let_def token_step_reset token_step_stop)
qed

lemma token_step_ensure:
  assumes "token_step st a"
  shows "token_step st (fst (ensurePolling cfg now sess a))"
  using assms by (simp add: ensurePolling_def token_step_schedule)

lemma token_step_connect:
  assumes "token_step st a"
  shows "token_step st (get_api_events cfg now sess res a)"
proof -
  have "token_step st (a\<lparr>sseClients := cs\<rparr>)" for cs
    by (rule token_step_same [OF assms]) simp_all
  then show ?thesis
    using assms by (simp add: get_api_events_def token_step_ensure split: sum.splits)
qed

lemma token_step_close:
  assumes "token_step st a"
  shows "token_step st (on_close i a)"
  unfolding on_close_def by (rule token_step_same [OF assms]) simp_all

lemma token_step_clear:
  assumes "token_step st a"
  shows "token_step st (clear_markers a)"
  unfolding clear_markers_def
  by (rule token_step_ext [OF assms, where es = "[SessionReset]"]) (simp_all add: or_str_def)

lemma token_step_auth:
  assumes "token_step st a"
  shows "token_step st (get_auth_callback cfg now tk a)"
    and "token_step st (get_auth_logout a)"
  using assms
  by (simp_all add: get_auth_callback_def get_auth_logout_def token_step_ensure token_step_stop
        token_step_clear)

lemma token_step_perform:
  assumes "token_step st a"
  shows "token_step st (perform cfg act a)"
  using assms
  by (cases act)
     (simp_all add: token_step_wake token_step_switch token_step_connect token_step_close
        token_step_auth)

lemma token_step_run: "token_step st a \<Longrightarrow> token_step st (run_actions cfg acts a)"
  unfolding run_actions_def
  by (induction acts arbitrary: a) (simp_all add: token_step_perform)

lemma ex_run_history:
  "history (run_actions (ex_cfg 2500 1800000) ex_run ex_state)
     = [ChannelsList, LiveBroadcastsList,
        LiveChatMessagesList (str ''chat1'') None, PageAnswer (Some (str ''t1'')),
        LiveChatMessagesList (str ''chat1'') (Some (str ''t1'')), PageAnswer (Some (str ''t2''))]
   \<and> nextPageToken (run_actions (ex_cfg 2500 1800000) ex_run ex_state) = Some (str ''t2'')"
  by (simp add: run_actions_def ex_run_def wake_def pollLoop_def pollLiveChat_def
        refresh_channel_def getAuthedChannel_def getLiveChatId_def fetch_page_def
        get_api_events_def ensurePolling_def announce_channel_def
        ex_state_def initial_state_def ex_cfg_def ex_session_def ex_env_at_def ex_env_def
        ex_page_token_def ex_sink_def Let_def or_str_def str_def record_entry_def
        scheduleNextPoll_def broadcastEvent_def res_write_def valid_time_def
        setTimeout_delay_def clearTimeout_def poll_delay_def or_num_def after_poll_def
        shouldRefreshChannel_def)

lemma pollLiveChat_tokens:
  assumes "oauthConfigured cfg"
  shows "fst (snd (pollLiveChat cfg env (Some tk) st))
           = Some (fst (refresh_channel cfg env tk (st\<lparr>lastPollAt := Some (t_wake env)\<rparr>)))"
  using assms
  by (simp add: pollLiveChat_def Let_def split_beta split: sum.splits option.splits prod.splits)

lemma pollLiveChat_threw:
  assumes "pollLiveChat cfg env oauth st = (Threw e, oauth', st1)"
  shows "oauthConfigured cfg \<and> (\<exists>tk. oauth' = Some tk)"
proof -
  have f: "fst (pollLiveChat cfg env oauth st) = Threw e"
    using assms by simp
  then have c: "oauthConfigured cfg" and "oauth \<noteq> None"
    by (auto simp: fst_pollLiveChat split: if_splits)
  then obtain tk where "oauth = Some tk"
    by auto
  with pollLiveChat_tokens [OF c, of env tk st] assms show ?thesis
    using c by simp
qed

lemma pollLiveChat_relooks:
  assumes conf: "oauthConfigured cfg" and stale: "\<not> truthy_str (activeLiveChatId st)"
  shows "\<exists>pre post.
           history (snd (snd (pollLiveChat cfg env (Some tk) st)))
             = history st @ pre @ LiveBroadcastsList # post
           \<and> set pre \<subseteq> {ChannelsList, RefreshAccessToken}
           \<and> (\<forall>c tok. LiveChatMessagesList c tok \<in> set post \<longrightarrow>
                 (\<exists>b rest. r_broadcasts env = Inr (b # rest) \<and> b_liveChatId b = Some c))"
proof -
  let ?a0 = "st\<lparr>lastPollAt := Some (t_wake env)\<rparr>"
  let ?a1 = "snd (refresh_channel cfg env tk ?a0)"
  obtain pre where pre: "history ?a1 = history ?a0 @ pre" "set pre \<subseteq> {ChannelsList, RefreshAccessToken}"
    using history_refresh_channel by blast
  have stale1: "\<not> truthy_str (activeLiveChatId ?a1)"
    using stale by simp
  have "\<exists>post. history (snd (snd (pollLiveChat cfg env (Some tk) st)))
                  = history ?a1 @ LiveBroadcastsList # post
               \<and> (\<forall>c tok. LiveChatMessagesList c tok \<in> set post \<longrightarrow>
                     (\<exists>b rest. r_broadcasts env = Inr (b # rest) \<and> b_liveChatId b = Some c))"
    using conf stale1
    by (auto simp: pollLiveChat_def Let_def split_beta getLiveChatId_def history_fetch_page
                   or_str_def
             split: sum.splits option.splits list.splits if_splits)
  then show ?thesis
    using pre by auto
qed

lemma history_catch_block:
  "\<exists>es. history (fst (catch_block cfg now sess e st)) = history st @ es \<and> set es \<subseteq> {SessionReset}"
  by (simp add: catch_block_def Let_def split: jsnum.splits)

lemma history_after_poll:
  "\<exists>es. history (fst (after_poll cfg now sess r st)) = history st @ es \<and> set es \<subseteq> {SessionReset}"
proof (cases "snd (scheduleNextPoll now sess
                (if (case r of Undefined \<Rightarrow> 0 | PollResult None \<Rightarrow> 0 | PollResult (Some n) \<Rightarrow> n) > 0
                 then Math_max (Math_max (Num 1200) (YT_POLL_MS cfg))
                        (Num (case r of Undefined \<Rightarrow> 0 | PollResult None \<Rightarrow> 0
                              | PollResult (Some n) \<Rightarrow> n))
                 else Math_max (Num 1200) (YT_POLL_MS cfg))
                (if (case r of Undefined \<Rightarrow> 0 | PollResult None \<Rightarrow> 0 | PollResult (Some n) \<Rightarrow> n) > 0
                 then str ''api interval'' else str ''env interval'')
                (st\<lparr>backoffUntil := None, backoffMs := Num 0\<rparr>))")
  case None
  then show ?thesis
    by (simp add: after_poll_def Let_def)
next
  case (Some err)
  let ?b = "fst (scheduleNextPoll now sess
                (if (case r of Undefined \<Rightarrow> 0 | PollResult None \<Rightarrow> 0 | PollResult (Some n) \<Rightarrow> n) > 0
                 then Math_max (Math_max (Num 1200) (YT_POLL_MS cfg))
                        (Num (case r of Undefined \<Rightarrow> 0 | PollResult None \<Rightarrow> 0
                              | PollResult (Some n) \<Rightarrow> n))
                 else Math_max (Num 1200) (YT_POLL_MS cfg))
                (if (case r of Undefined \<Rightarrow> 0 | PollResult None \<Rightarrow> 0 | PollResult (Some n) \<Rightarrow> n) > 0
                 then str ''api interval'' else str ''env interval'')
                (st\<lparr>backoffUntil := None, backoffMs := Num 0\<rparr>))"
  have "history ?b = history st"
    by simp
  with history_catch_block [of cfg now sess range_error ?b] Some show ?thesis
    by (simp add: after_poll_def Let_def)
qed

lemma pollLoop_history_grows:
  assumes "ytEnabled st" and nb: "\<not> backoff_active (t_wake env) st"
  shows "\<exists>es. history (fst (pollLoop cfg env sess st))
                = history (snd (snd (pollLiveChat cfg env (oauthTokens sess) st))) @ es
              \<and> set es \<subseteq> {SessionReset}"
proof -
  obtain out oauth a1 where p: "pollLiveChat cfg env (oauthTokens sess) st = (out, oauth, a1)"
    by (cases "pollLiveChat cfg env (oauthTokens sess) st")
  show ?thesis
    using assms(1) history_catch_block history_after_poll
    by (simp add: pollLoop_def not_backoff_active [OF nb] p split: outcome.splits)
qed

lemma the_ms_slowed:
  "the_ms (poll_delay (slowed_interval cfg))
     = (case YT_POLL_MS cfg of NaN \<Rightarrow> 1200 | Num p \<Rightarrow> max 15000 (max 1200 p))"
  by (cases "YT_POLL_MS cfg") (simp_all add: slowed_interval_def the_ms_poll_delay)

lemma pollLoop_chat_closed:
  assumes en: "ytEnabled st" and nb: "\<not> backoff_active (t_wake env) st"
      and thrown: "pollLiveChat cfg env (oauthTokens sess) st = (Threw e, oauth, st1)"
      and closed: "isChatNoLongerLiveError e"
  shows "pollLoop cfg env sess st
           = scheduleNextPoll (t_done env) (sess\<lparr>oauthTokens := oauth\<rparr>) (slowed_interval cfg)
               (str ''chat ended'')
               (resetLiveState (Some ChatEndedRedetect)
                  (broadcastEvent st1 (Status Err (PollError e))))"
  using closed
  by (simp add: pollLoop_threw [OF en nb thrown] catch_block_def Let_def)

lemmas eval_item = ex_msg_def item_text_def snippet_field_def trim_def is_space_def str_def

lemma nullable_lang: "nullable r \<longleftrightarrow> [] \<in> lang r"
  by (induction r) (auto simp: conc_def intro: star_empty)

lemma cons_in_conc:
  "c # w \<in> conc A B \<longleftrightarrow>
     (\<exists>u v. w = u @ v \<and> c # u \<in> A \<and> v \<in> B) \<or> ([] \<in> A \<and> c # w \<in> B)"
proof
  assume "c # w \<in> conc A B"
  then obtain u v where uv: "c # w = u @ v" "u \<in> A" "v \<in> B"
    by (auto simp: conc_def)
  show "(\<exists>u v. w = u @ v \<and> c # u \<in> A \<and> v \<in> B) \<or> ([] \<in> A \<and> c # w \<in> B)"
  proof (cases u)
    case Nil
    with uv show ?thesis by simp
  next
    case (Cons d u')
    with uv have "w = u' @ v" and "c # u' \<in> A"
      by simp_all
    with uv(3) show ?thesis by blast
  qed
next
  assume "(\<exists>u v. w = u @ v \<and> c # u \<in> A \<and> v \<in> B) \<or> ([] \<in> A \<and> c # w \<in> B)"
  then show "c # w \<in> conc A B"
  proof
    assume "\<exists>u v. w = u @ v \<and> c # u \<in> A \<and> v \<in> B"
    then obtain u v where "w = u @ v" "c # u \<in> A" "v \<in> B"
      by blast
    then have "c # w = (c # u) @ v \<and> c # u \<in> A \<and> v \<in> B"
      by simp
    then show ?thesis
      unfolding conc_def by blast
  next
    assume "[] \<in> A \<and> c # w \<in> B"
    then have "c # w = [] @ (c # w) \<and> [] \<in> A \<and> c # w \<in> B"
      by simp
    then show ?thesis
      unfolding conc_def by blast
  qed
qed

lemma star_cons_split:
  assumes "x \<in> star A" and "x = c # w"
  shows "\<exists>u v. w = u @ v \<and> c # u \<in> A \<and> v \<in> star A"
  using assms
proof (induction rule: star.induct)
  case star_empty
  then show ?case by simp
next
  case (star_more u v)
  show ?case
  proof (cases u)
    case Nil
    with star_more show ?thesis by simp
  next
    case (Cons d u')
    with star_more.prems have "w = u' @ v" and "d = c"
      by simp_all
    with star_more.hyps Cons show ?thesis by blast
  qed
qed

lemma cons_in_star:
  "c # w \<in> star A \<longleftrightarrow> (\<exists>u v. w = u @ v \<and> c # u \<in> A \<and> v \<in> star A)"
proof
  assume "c # w \<in> star A"
  then show "\<exists>u v. w = u @ v \<and> c # u \<in> A \<and> v \<in> star A"
    by (rule star_cons_split) simp
next
  assume "\<exists>u v. w = u @ v \<and> c # u \<in> A \<and> v \<in> star A"
  then obtain u v where "w = u @ v" "c # u \<in> A" "v \<in> star A"
    by blast
  then show "c # w \<in> star A"
    using star_more [of "c # u" A v] by simp
qed

lemma deriv_lang: "w \<in> lang (deriv c r) \<longleftrightarrow> c # w \<in> lang r"
proof (induction r arbitrary: w)
  case (Seq r s)
  have "w \<in> conc (lang (deriv c r)) (lang s)
          \<longleftrightarrow> (\<exists>u v. w = u @ v \<and> c # u \<in> lang r \<and> v \<in> lang s)"
    using Seq.IH(1) by (auto simp: conc_def)
  then show ?case
    using Seq.IH(2) by (simp add: cons_in_conc nullable_lang)
next
  case (Star r)
  have "w \<in> conc (lang (deriv c r)) (star (lang r))
          \<longleftrightarrow> (\<exists>u v. w = u @ v \<and> c # u \<in> lang r \<and> v \<in> star (lang r))"
    using Star.IH by (auto simp: conc_def)
  then show ?case
    by (simp add: cons_in_star)
qed auto

lemma matches_prefix_lang:
  "matches_prefix r s \<longleftrightarrow> (\<exists>u v. s = u @ v \<and> u \<in> lang r)"
proof (induction s arbitrary: r)
  case Nil
  show ?case by (simp add: nullable_lang)
next
  case (Cons c cs)
  have "(\<exists>u v. c # cs = u @ v \<and> u \<in> lang r)
          \<longleftrightarrow> [] \<in> lang r \<or> (\<exists>u v. cs = u @ v \<and> c # u \<in> lang r)"
    by (auto simp: Cons_eq_append_conv)
  then show ?case
    by (simp add: Cons.IH nullable_lang deriv_lang)
qed

lemma regex_test_lang:
  "regex_test r s \<longleftrightarrow> (\<exists>t u v. s = t @ u @ v \<and> u \<in> lang r)"
proof (induction s)
  case Nil
  show ?case by (simp add: nullable_lang)
next
  case (Cons c cs)
  have "(\<exists>t u v. c # cs = t @ u @ v \<and> u \<in> lang r)
          \<longleftrightarrow> (\<exists>u v. c # cs = u @ v \<and> u \<in> lang r) \<or> (\<exists>t u v. cs = t @ u @ v \<and> u \<in> lang r)"
  proof
    assume "\<exists>t u v. c # cs = t @ u @ v \<and> u \<in> lang r"
    then obtain t u v where tuv: "c # cs = t @ u @ v" "u \<in> lang r"
      by blast
    show "(\<exists>u v. c # cs = u @ v \<and> u \<in> lang r) \<or> (\<exists>t u v. cs = t @ u @ v \<and> u \<in> lang r)"
    proof (cases t)
      case Nil
      with tuv show ?thesis by auto
    next
      case (Cons d t')
      with tuv have "cs = t' @ u @ v" by simp
      with tuv(2) show ?thesis by blast
    qed
  next
    assume "(\<exists>u v. c # cs = u @ v \<and> u \<in> lang r) \<or> (\<exists>t u v. cs = t @ u @ v \<and> u \<in> lang r)"
    then show "\<exists>t u v. c # cs = t @ u @ v \<and> u \<in> lang r"
    proof
      assume "\<exists>u v. c # cs = u @ v \<and> u \<in> lang r"
      then obtain u v where "c # cs = [] @ u @ v" "u \<in> lang r"
        by auto
      then show ?thesis by blast
    next
      assume "\<exists>t u v. cs = t @ u @ v \<and> u \<in> lang r"
      then obtain t u v where "c # cs = (c # t) @ u @ v" "u \<in> lang r"
        by auto
      then show ?thesis by blast
    qed
  qed
  then show ?case
    using matches_prefix_lang [of r "c # cs"] by (simp add: Cons.IH)
qed

section \<open>The 1200 ms floor of every scheduled delay\<close>

text \<open>
  What \<open>scheduleNextPoll\<close> does with a requested duration, whatever it is (a number below
  1200, zero, a negative number, or \<open>NaN\<close> for an input that is not a number): it records
  \<open>d = max(1200, requested)\<close> (1200 for \<open>NaN\<close>) as the effective poll interval. When the
  instant \<open>d\<close> ahead is a time value, the next-wake instant is that one and the timer is
  armed, with \<open>d\<close> as long as \<open>d\<close> does not exceed 2147483647 and with 1 ms beyond. Otherwise
  the function throws before it arms a timer: the old timer is cleared, and the next-wake
  instant is left as it was.
\<close>

lemma scheduleNextPoll_floor:
  "let d = (case ms of NaN \<Rightarrow> 1200 | Num n \<Rightarrow> max 1200 n);
       st' = fst (scheduleNextPoll now sess ms reason st);
       err = snd (scheduleNextPoll now sess ms reason st)
   in poll_delay ms = Num d
      \<and> 1200 \<le> d
      \<and> lastPollMsEffective st' = Some d
      \<and> (valid_time (now + d) \<longrightarrow>
            err = None \<and> nextPollAt st' = Some (now + d)
            \<and> pollTimeout st'
                = Some \<lparr>t_delay = (if d \<le> 2147483647 then d else 1), t_session = sess,
                        t_fired = False\<rparr>)
      \<and> (\<not> valid_time (now + d) \<longrightarrow>
            err = Some RangeError \<and> nextPollAt st' = nextPollAt st
            \<and> pollTimeout st' = clearTimeout (pollTimeout st))"
proof -
  have d: "the_ms (poll_delay ms) = (case ms of NaN \<Rightarrow> 1200 | Num n \<Rightarrow> max 1200 n)"
    by (rule the_ms_poll_delay)
  have n: "poll_delay ms = Num (case ms of NaN \<Rightarrow> 1200 | Num n \<Rightarrow> max 1200 n)"
    using poll_delay_is_number [of ms] d by simp
  have f: "(1200::int) \<le> (case ms of NaN \<Rightarrow> 1200 | Num n \<Rightarrow> max 1200 n)"
    by (cases ms) simp_all
  have t: "setTimeout_delay (case ms of NaN \<Rightarrow> 1200 | Num n \<Rightarrow> max 1200 n)
             = (if (case ms of NaN \<Rightarrow> 1200 | Num n \<Rightarrow> max 1200 n) \<le> 2147483647
                then (case ms of NaN \<Rightarrow> 1200 | Num n \<Rightarrow> max 1200 n) else 1)"
    using f by (simp add: setTimeout_delay_def)
  show ?thesis
    using n f t
    by (simp add: Let_def d [symmetric] scheduleNextPoll_armed scheduleNextPoll_throws)
qed

text \<open>
  C10. The floor holds for the recorded interval, not for the timer. A requested duration
  above 2147483647 ms is recorded as \<open>max(1200, requested)\<close>, but the timer that
  \<open>setTimeout\<close> arms for it fires after 1 ms: so it is with a request of 3000000000 ms, and
  so it is for the wake that \<open>ensurePolling\<close> arms for the first subscriber when
  \<open>YT_POLL_MS\<close> is 3000000000. A duration that leads beyond the range of \<open>Date\<close> makes
  \<open>scheduleNextPoll\<close> throw with no timer armed.
\<close>

theorem scheduleNextPoll_overflow:
  "poll_delay (Num 3000000000) = Num 3000000000
   \<and> lastPollMsEffective
        (fst (scheduleNextPoll 5000 \<lparr>oauthTokens = None\<rparr> (Num 3000000000) [] (initial_state True)))
       = Some 3000000000
   \<and> map_option t_delay
        (pollTimeout
           (fst (scheduleNextPoll 5000 \<lparr>oauthTokens = None\<rparr> (Num 3000000000) []
                   (initial_state True)))) = Some 1
   \<and> map_option t_delay
        (pollTimeout
           (get_api_events (ex_cfg 3000000000 1800000) 6000 ex_session (ex_sink 1 False)
              (initial_state True))) = Some 1
   \<and> snd (scheduleNextPoll 5000 \<lparr>oauthTokens = None\<rparr> (Num 8640000000000000) []
             (initial_state True)) = Some RangeError
   \<and> pollTimeout
        (fst (scheduleNextPoll 5000 \<lparr>oauthTokens = None\<rparr> (Num 8640000000000000) []
                (initial_state True))) = None"
  by (simp add: scheduleNextPoll_def poll_delay_def or_num_def Let_def valid_time_def
        setTimeout_delay_def clearTimeout_def initial_state_def get_api_events_def
        ensurePolling_def res_write_def ex_sink_def ex_cfg_def)

section \<open>Classification of special events\<close>

text \<open>
  C3. \<open>classifySpecialEvent\<close> yields at most one special event (its result is an option),
  chosen in this order: with \<open>superChatDetails\<close> present, a superchat carrying
  \<open>amountDisplayString\<close> and \<open>tier\<close>, whatever else the item holds; otherwise, with
  \<open>newSponsorDetails\<close> present, a membership carrying \<open>membershipLevelName\<close>; otherwise a
  gift carrying the trimmed display text exactly when that text matches one of the nine
  patterns; otherwise nothing. A missing, empty or whitespace-only text with no detail
  field yields nothing. The function has no failing branch.
\<close>

theorem classifySpecialEvent_priority:
  "(snippet_field superChatDetails it = Some d \<longrightarrow>
      classifySpecialEvent it = Some (Superchat (amountDisplayString d) (tier d)))
   \<and> (snippet_field superChatDetails it = None \<and> snippet_field newSponsorDetails it = Some m \<longrightarrow>
      classifySpecialEvent it = Some (Membership (membershipLevelName m)))
   \<and> (snippet_field superChatDetails it = None \<and> snippet_field newSponsorDetails it = None \<longrightarrow>
      classifySpecialEvent it
        = (if list_ex (\<lambda>re. regex_test re (item_text it)) patterns then Some (Gift (item_text it))
           else None))
   \<and> (snippet_field superChatDetails it = None \<and> snippet_field newSponsorDetails it = None
       \<and> (\<forall>c \<in> set (String_or_empty (snippet_field displayMessage it)). is_space c) \<longrightarrow>
      classifySpecialEvent it = None)"
proof -
  have empty: "item_text it = [] \<Longrightarrow> \<not> list_ex (\<lambda>re. regex_test re (item_text it)) patterns"
    using no_gift_in_empty by simp
  have blank: "\<forall>c \<in> set (String_or_empty (snippet_field displayMessage it)). is_space c
               \<Longrightarrow> item_text it = []"
    unfolding item_text_def by (rule trim_all_space)
  show ?thesis
    using empty blank
    by (auto simp: classifySpecialEvent_def Let_def item_text_def [symmetric])
qed

theorem classifySpecialEvent_priority_witness:
  "classifySpecialEvent
      (ex_item (str ''m1'') (Some (str ''gifted 5 memberships''))
         (Some \<lparr>amountDisplayString = Some (str ''$5.00''), tier = Some 1\<rparr>)
         (Some \<lparr>membershipLevelName = Some (str ''Tier 1'')\<rparr>))
     = Some (Superchat (Some (str ''$5.00'')) (Some 1))
   \<and> classifySpecialEvent
      (ex_item (str ''m2'') (Some (str ''gifted 5 memberships'')) None
         (Some \<lparr>membershipLevelName = Some (str ''Tier 1'')\<rparr>))
     = Some (Membership (Some (str ''Tier 1'')))
   \<and> classifySpecialEvent (ex_item (str ''m3'') (Some (str '' gifted 5 memberships '')) None None)
     = Some (Gift (str ''gifted 5 memberships''))
   \<and> classifySpecialEvent (ex_item (str ''m5'') (Some [32, 9, 12288]) None None) = None"
proof -
  let ?d = "\<lparr>amountDisplayString = Some (str ''$5.00''), tier = Some 1\<rparr>"
  let ?m = "\<lparr>membershipLevelName = Some (str ''Tier 1'')\<rparr>"
  let ?i1 = "ex_item (str ''m1'') (Some (str ''gifted 5 memberships'')) (Some ?d) (Some ?m)"
  let ?i2 = "ex_item (str ''m2'') (Some (str ''gifted 5 memberships'')) None (Some ?m)"
  let ?i3 = "ex_item (str ''m3'') (Some (str '' gifted 5 memberships '')) None None"
  let ?i5 = "ex_item (str ''m5'') (Some [32, 9, 12288]) None None"
  have p1: "snippet_field superChatDetails ?i1 = Some ?d"
    by (simp add: ex_item_def snippet_field_def)
  have sc: "classifySpecialEvent ?i1 = Some (Superchat (amountDisplayString ?d) (tier ?d))"
    by (rule classifySpecialEvent_priority [where it = ?i1 and d = ?d, THEN conjunct1, THEN mp, OF p1])
  have p2: "snippet_field superChatDetails ?i2 = None \<and> snippet_field newSponsorDetails ?i2 = Some ?m"
    by (simp add: ex_item_def snippet_field_def)
  have ms: "classifySpecialEvent ?i2 = Some (Membership (membershipLevelName ?m))"
    by (rule classifySpecialEvent_priority
              [where it = ?i2 and m = ?m, THEN conjunct2, THEN conjunct1, THEN mp, OF p2])
  have p3: "snippet_field superChatDetails ?i3 = None \<and> snippet_field newSponsorDetails ?i3 = None"
    by (simp add: ex_item_def snippet_field_def)
  have trimmed: "item_text ?i3 = str ''gifted 5 memberships''"
    by (simp add: item_text_def ex_item_def snippet_field_def trim_def str_def is_space_def)
  have hit: "list_ex (\<lambda>re. regex_test re (str ''gifted 5 memberships'')) patterns"
  proof (rule pattern_hit)
    show "hd patterns \<in> set patterns"
      by (simp add: patterns_def)
    show "regex_test (hd patterns) (str ''gifted 5 memberships'')"
      by (rule regex_test_prefix)
         (simp add: patterns_def str_def Opt_def Plus_def is_space_def is_digit_def
            canonicalize_def)
  qed
  have "classifySpecialEvent ?i3
          = (if list_ex (\<lambda>re. regex_test re (item_text ?i3)) patterns
             then Some (Gift (item_text ?i3)) else None)"
    by (rule classifySpecialEvent_priority
              [where it = ?i3, THEN conjunct2, THEN conjunct2, THEN conjunct1, THEN mp, OF p3])
  then have gf: "classifySpecialEvent ?i3 = Some (Gift (str ''gifted 5 memberships''))"
    unfolding trimmed using hit by (simp only: if_True)
  have p5: "snippet_field superChatDetails ?i5 = None \<and> snippet_field newSponsorDetails ?i5 = None
            \<and> (\<forall>c \<in> set (String_or_empty (snippet_field displayMessage ?i5)). is_space c)"
    by (simp add: ex_item_def snippet_field_def is_space_def)
  have ws: "classifySpecialEvent ?i5 = None"
    by (rule classifySpecialEvent_priority
              [where it = ?i5, THEN conjunct2, THEN conjunct2, THEN conjunct2, THEN mp, OF p5])
  show ?thesis
    using sc ms gf ws by simp
qed

section \<open>Fanout isolation\<close>

text \<open>
  C5 (as amended). \<open>broadcastEvent\<close> never raises: the exception of a failing \<open>res.write\<close>
  is caught inside the loop. Every subscriber whose write succeeds receives the same frame,
  appended to what it had received. A subscriber whose write fails is left as it was and
  stays in \<open>sseClients\<close>: the loop ignores the failure, it does not remove the subscriber
  (only the \<open>close\<close> event of its request does).
\<close>

theorem broadcastEvent_fanout:
  "broadcastEvent_exn st evt = Inr (broadcastEvent st evt)
   \<and> map sink_id (sseClients (broadcastEvent st evt)) = map sink_id (sseClients st)
   \<and> map sink_fails (sseClients (broadcastEvent st evt)) = map sink_fails (sseClients st)
   \<and> map written (sseClients (broadcastEvent st evt))
       = map (\<lambda>s. if sink_fails s then written s else written s @ [SseFrame evt]) (sseClients st)"
  by (simp add: broadcastEvent_exn_total sseClients_broadcastEvent comp_def)

theorem broadcastEvent_fanout_witness:
  "broadcastEvent_exn ex_state (Status Info Fetching) = Inr (broadcastEvent ex_state (Status Info Fetching))
   \<and> map sink_id (sseClients (broadcastEvent ex_state (Status Info Fetching))) = [1, 2]
   \<and> map written (sseClients (broadcastEvent ex_state (Status Info Fetching)))
       = [[], [SseFrame (Status Info Fetching)]]"
  using broadcastEvent_fanout [where st = ex_state and evt = "Status Info Fetching"]
  by (simp add: ex_state_def ex_sink_def initial_state_def)

text \<open>
  The claim as written fails: after a broadcast in which the write to subscriber 1 fails,
  subscriber 1 is still a member of \<open>sseClients\<close>.
\<close>

theorem broadcastEvent_keeps_failed_subscriber:
  "sink_fails (ex_sink 1 True)
   \<and> ex_sink 1 True \<in> set (sseClients ex_state)
   \<and> ex_sink 1 True \<in> set (sseClients (broadcastEvent ex_state (Status Info Fetching)))"
  by (simp add: ex_state_def ex_sink_def initial_state_def broadcastEvent_def deliver_def
        res_write_def Let_def)

section \<open>Order of the chat messages of a page\<close>

text \<open>
  The items of a fetched page are emitted in the reverse of the order in which the page
  lists them: every subscriber whose writes succeed receives, for the items with a
  non-empty text, their chat messages in reversed page order. Hence a page that lists its
  items newest first is emitted oldest first. The code does not look at \<open>publishedAt\<close>.
\<close>

lemma page_emitted_in_reverse_order:
  assumes "r_messages env = Inr pg"
  shows "map (chat_frames \<circ> written) (sseClients (snd (fetch_page env chatId st)))
           = map (\<lambda>s. chat_frames (written s)
                        @ (if sink_fails s then []
                           else map chat_of (filter (\<lambda>it. item_text it \<noteq> []) (rev (p_items pg)))))
               (sseClients st)
         \<and> (newest_first (p_items pg) \<longrightarrow>
              chronological (map chat_of (filter (\<lambda>it. item_text it \<noteq> []) (rev (p_items pg)))))"
proof
  show "map (chat_frames \<circ> written) (sseClients (snd (fetch_page env chatId st)))
           = map (\<lambda>s. chat_frames (written s)
                        @ (if sink_fails s then []
                           else map chat_of (filter (\<lambda>it. item_text it \<noteq> []) (rev (p_items pg)))))
               (sseClients st)"
    unfolding sseClients_fetch_page [OF assms]
    by (simp add: chat_frames_append chat_frames_items)
next
  show "newest_first (p_items pg) \<longrightarrow>
          chronological (map chat_of (filter (\<lambda>it. item_text it \<noteq> []) (rev (p_items pg))))"
  proof
    assume "newest_first (p_items pg)"
    then have "sorted (map (\<lambda>it. or_str (snippet_field publishedAt it) None) (rev (p_items pg)))"
      by (simp add: newest_first_def rev_map)
    then have "sorted (map (\<lambda>it. or_str (snippet_field publishedAt it) None)
                 (filter (\<lambda>it. item_text it \<noteq> []) (rev (p_items pg))))"
      by (rule sorted_filter)
    then show "chronological (map chat_of (filter (\<lambda>it. item_text it \<noteq> []) (rev (p_items pg))))"
      by (simp add: chronological_def comp_def)
  qed
qed

lemma newest_first_page_emitted_oldest_first:
  "map (map c_id \<circ> chat_frames \<circ> written)
     (sseClients (snd (fetch_page (ex_env (Inr ex_page_newest_first)) (str ''chat1'') ex_state)))
     = [[], [Some (str ''a''), Some (str ''b'')]]
   \<and> newest_first (p_items ex_page_newest_first)
   \<and> chronological
        (map chat_of (filter (\<lambda>it. item_text it \<noteq> []) (rev (p_items ex_page_newest_first))))"
proof -
  have ans: "r_messages (ex_env (Inr ex_page_newest_first)) = Inr ex_page_newest_first"
    by (simp add: ex_env_def)
  note inst = page_emitted_in_reverse_order [OF ans, where chatId = "str ''chat1''" and st = ex_state]
  have nf: "newest_first (p_items ex_page_newest_first)"
    by (simp add: newest_first_def ex_page_newest_first_def ex_msg_def snippet_field_def
          or_str_def str_def)
  have "map (map c_id \<circ> chat_frames \<circ> written)
          (sseClients (snd (fetch_page (ex_env (Inr ex_page_newest_first)) (str ''chat1'') ex_state)))
        = map (map c_id) (map (chat_frames \<circ> written)
          (sseClients (snd (fetch_page (ex_env (Inr ex_page_newest_first)) (str ''chat1'') ex_state))))"
    by simp
  also have "\<dots> = [[], [Some (str ''a''), Some (str ''b'')]]"
    unfolding inst [THEN conjunct1]
    by (simp add: ex_state_def ex_sink_def initial_state_def ex_page_newest_first_def eval_item)
  finally show ?thesis
    using nf inst [THEN conjunct2] by simp
qed

text \<open>
  C4. The chronological order is not preserved for a page that lists its items oldest
  first. The page of the example lists the message stamped \<open>00:00:01\<close> before the one
  stamped \<open>00:00:02\<close>, in chronological order; the subscriber whose writes succeed receives
  the one stamped \<open>00:00:02\<close> first. The reversal is unconditional, where the comment above
  it promises messages displayed in chronological order.
\<close>

theorem oldest_first_page_emitted_newest_first:
  "chronological (map chat_of (p_items ex_page_oldest_first))
   \<and> map c_publishedAt
        (chat_frames (written (last (sseClients
           (snd (fetch_page (ex_env (Inr ex_page_oldest_first)) (str ''chat1'') ex_state))))))
       = [Some (str ''2024-01-01T00:00:02Z''), Some (str ''2024-01-01T00:00:01Z'')]
   \<and> \<not> chronological
          (chat_frames (written (last (sseClients
             (snd (fetch_page (ex_env (Inr ex_page_oldest_first)) (str ''chat1'') ex_state))))))"
proof -
  have ans: "r_messages (ex_env (Inr ex_page_oldest_first)) = Inr ex_page_oldest_first"
    by (simp add: ex_env_def)
  have input: "chronological (map chat_of (p_items ex_page_oldest_first))"
    by (simp add: chronological_def ex_page_oldest_first_def ex_msg_def snippet_field_def
          or_str_def str_def)
  have emitted: "map c_publishedAt (chat_frames (written (last (sseClients
          (snd (fetch_page (ex_env (Inr ex_page_oldest_first)) (str ''chat1'') ex_state))))))
        = [Some (str ''2024-01-01T00:00:02Z''), Some (str ''2024-01-01T00:00:01Z'')]"
    unfolding sseClients_fetch_page [OF ans]
    by (simp add: ex_state_def ex_sink_def initial_state_def ex_page_oldest_first_def
          chat_frames_append chat_frames_item_events eval_item or_str_def)
  then have "\<not> chronological
          (chat_frames (written (last (sseClients
             (snd (fetch_page (ex_env (Inr ex_page_oldest_first)) (str ''chat1'') ex_state))))))"
    by (simp add: chronological_def str_def)
  with input emitted show ?thesis
    by simp
qed

section \<open>Delay after a successful poll cycle\<close>

text \<open>
  The delay after a poll that returned \<open>r\<close>. With \<open>YT_POLL_MS\<close> a number \<open>p\<close> it is
  \<open>max(1200, p, a)\<close> when \<open>r\<close> reports an API-suggested interval \<open>a\<close>, and \<open>max(1200, p)\<close>
  when it reports none. With \<open>YT_POLL_MS\<close> not a number, \<open>Math.max\<close> yields \<open>NaN\<close> and
  \<open>scheduleNextPoll\<close> falls back to 1200, whatever \<open>r\<close> reports. The delay is recorded and,
  the instant that far ahead being a time value, the timer is armed (with the delay itself
  up to 2147483647).
\<close>

lemma after_poll_delay:
  assumes d: "d = (case YT_POLL_MS cfg of
                     NaN \<Rightarrow> 1200
                   | Num p \<Rightarrow> (case r of PollResult (Some a) \<Rightarrow> max 1200 (max p a)
                               | _ \<Rightarrow> max 1200 p))"
      and v: "valid_time (now + d)"
  shows "snd (after_poll cfg now sess r st) = None
         \<and> lastPollMsEffective (fst (after_poll cfg now sess r st)) = Some d
         \<and> nextPollAt (fst (after_poll cfg now sess r st)) = Some (now + d)
         \<and> pollTimeout (fst (after_poll cfg now sess r st))
             = Some \<lparr>t_delay = setTimeout_delay d, t_session = sess, t_fired = False\<rparr>"
proof -
  let ?apiMs = "case r of Undefined \<Rightarrow> 0 | PollResult None \<Rightarrow> 0 | PollResult (Some n) \<Rightarrow> n"
  let ?baseMs = "Math_max (Num 1200) (YT_POLL_MS cfg)"
  let ?nextMs = "if ?apiMs > 0 then Math_max ?baseMs (Num ?apiMs) else ?baseMs"
  have ms: "the_ms (poll_delay ?nextMs) = d"
    unfolding d
    by (cases "YT_POLL_MS cfg"; cases r rule: poll_result.exhaust)
       (auto simp: the_ms_poll_delay max_def split: option.splits)
  have v': "valid_time (now + the_ms (poll_delay ?nextMs))"
    using v ms by simp
  show ?thesis
    using scheduleNextPoll_armed [OF v', of sess] ms
    by (simp add: after_poll_def Let_def)
qed

lemma pollLoop_success_delay:
  assumes en: "ytEnabled st"
      and nb: "\<not> backoff_active (t_wake env) st"
      and ok: "pollLiveChat cfg env (oauthTokens sess) st = (Returned r, oauth, st1)"
      and d: "d = (case YT_POLL_MS cfg of
                     NaN \<Rightarrow> 1200
                   | Num p \<Rightarrow> (case r of PollResult (Some a) \<Rightarrow> max 1200 (max p a)
                               | _ \<Rightarrow> max 1200 p))"
      and v: "valid_time (t_done env + d)"
  shows "snd (pollLoop cfg env sess st) = None
         \<and> lastPollMsEffective (fst (pollLoop cfg env sess st)) = Some d
         \<and> nextPollAt (fst (pollLoop cfg env sess st)) = Some (t_done env + d)
         \<and> map_option t_delay (pollTimeout (fst (pollLoop cfg env sess st)))
             = Some (setTimeout_delay d)"
  unfolding pollLoop_returned [OF en nb ok]
  using after_poll_delay [OF d v, of "sess\<lparr>oauthTokens := oauth\<rparr>" st1]
  by simp

text \<open>
  C1. The API-suggested interval is not respected when \<open>YT_POLL_MS\<close> is set to a text that
  is not a number. The page of the example suggests 5000 ms and \<open>pollLiveChat\<close> reports
  it; the cycle succeeds, and the timer is armed with 1200 ms, the next wake 1200 ms after
  the end of the cycle. With \<open>YT_POLL_MS = 2500\<close> the same cycle arms 5000 ms.
\<close>

theorem nan_poll_ms_drops_api_interval:
  "YT_POLL_MS ex_cfg_nan = NaN
   \<and> fst (pollLiveChat ex_cfg_nan (ex_env (Inr (ex_page_empty (Some 5000))))
            (oauthTokens ex_session) ex_state) = Returned (PollResult (Some 5000))
   \<and> snd (pollLoop ex_cfg_nan (ex_env (Inr (ex_page_empty (Some 5000)))) ex_session ex_state)
       = None
   \<and> map_option t_delay
        (pollTimeout (fst (pollLoop ex_cfg_nan (ex_env (Inr (ex_page_empty (Some 5000))))
                             ex_session ex_state))) = Some 1200
   \<and> lastPollMsEffective
        (fst (pollLoop ex_cfg_nan (ex_env (Inr (ex_page_empty (Some 5000)))) ex_session ex_state))
       = Some 1200
   \<and> nextPollAt
        (fst (pollLoop ex_cfg_nan (ex_env (Inr (ex_page_empty (Some 5000)))) ex_session ex_state))
       = Some 101400
   \<and> map_option t_delay
        (pollTimeout (fst (pollLoop (ex_cfg 2500 1800000)
                             (ex_env (Inr (ex_page_empty (Some 5000)))) ex_session ex_state)))
       = Some 5000"
proof -
  let ?env = "ex_env (Inr (ex_page_empty (Some 5000)))"
  have en: "ytEnabled ex_state"
    by (simp add: eval_env)
  have nb: "\<not> backoff_active (t_wake ?env) ex_state"
    by (simp add: eval_env)
  have out: "fst (pollLiveChat cfg ?env (oauthTokens ex_session) ex_state)
               = Returned (PollResult (Some 5000))"
    if "oauthConfigured cfg" for cfg
    using that by (simp add: fst_pollLiveChat fst_fetch_page eval_env str_def)
  have ok: "pollLiveChat cfg ?env (oauthTokens ex_session) ex_state
            = (Returned (PollResult (Some 5000)),
               fst (snd (pollLiveChat cfg ?env (oauthTokens ex_session) ex_state)),
               snd (snd (pollLiveChat cfg ?env (oauthTokens ex_session) ex_state)))"
    if "oauthConfigured cfg" for cfg
    using pollLiveChat_triple [of cfg ?env "oauthTokens ex_session" ex_state]
    unfolding out [OF that] .
  have c1: "oauthConfigured ex_cfg_nan" and c2: "oauthConfigured (ex_cfg 2500 1800000)"
    by (simp_all add: ex_cfg_nan_def ex_cfg_def)
  have nan: "YT_POLL_MS ex_cfg_nan = NaN"
    by (simp add: ex_cfg_nan_def)
  have d1: "(1200::int) = (case YT_POLL_MS ex_cfg_nan of
                     NaN \<Rightarrow> 1200
                   | Num p \<Rightarrow> (case PollResult (Some 5000) of
                                 PollResult (Some a) \<Rightarrow> max 1200 (max p a)
                               | _ \<Rightarrow> max 1200 p))"
    by (simp add: nan)
  have d2: "(5000::int) = (case YT_POLL_MS (ex_cfg 2500 1800000) of
                     NaN \<Rightarrow> 1200
                   | Num p \<Rightarrow> (case PollResult (Some 5000) of
                                 PollResult (Some a) \<Rightarrow> max 1200 (max p a)
                               | _ \<Rightarrow> max 1200 p))"
    by (simp add: ex_cfg_def)
  have v1: "valid_time (t_done ?env + 1200)" and v2: "valid_time (t_done ?env + 5000)"
    by (simp_all add: valid_time_def ex_env_def)
  show ?thesis
    using nan out [OF c1] pollLoop_success_delay [OF en nb ok [OF c1] d1 v1]
          pollLoop_success_delay [OF en nb ok [OF c2] d2 v2]
    by (simp add: ex_env_def setTimeout_delay_def)
qed

section \<open>Growth and reset of the quota backoff\<close>

text \<open>
  C2 (as amended). Let \<open>YT_BACKOFF_MAX_MS\<close> be a number \<open>M \<ge> 0\<close>, and count from a state in
  which the backoff duration is zero (as at the start, after any successful cycle, after a
  use of the switch, an authorization or a logout). Let the timer wake any number of times
  with no successful cycle among the wakes, \<open>k\<close> of them cycles that end in quota
  exhaustion; cycles that fail otherwise (the chat-closed and the generic branch) and
  wakes that fall into a running backoff may lie between them, and do not change the
  backoff duration. The next cycle that ends in quota exhaustion (number \<open>k + 1\<close>) sets the
  backoff duration to \<open>min(60000 * 2^k, M)\<close> and, the instants concerned being time values,
  the backoff deadline that far after the end of the cycle; it records that duration
  raised to the 1200 ms floor of \<open>scheduleNextPoll\<close> as the effective poll interval, sets
  the next-wake instant that far ahead, and arms the timer with it when \<open>M\<close> does not
  exceed 2147483647, the longest delay of a timer. So the scheduled delay equals the
  backoff duration whenever \<open>1200 \<le> M \<le> 2147483647\<close>. Every successful cycle sets the backoff
  duration to zero and clears the deadline.
\<close>

theorem quota_backoff_growth:
  assumes streak: "quota_streak cfg k st st1"
      and fresh: "backoffMs st = Num 0"
      and mx: "YT_BACKOFF_MAX_MS cfg = Num M"
      and nonneg: "0 \<le> M"
      and qc: "quota_cycle cfg env sess st1"
      and t1: "valid_time (t_done env)"
      and t2: "valid_time (t_done env + max 1200 (min (60000 * 2 ^ k) M))"
  shows "snd (pollLoop cfg env sess st1) = None
         \<and> backoffMs (fst (pollLoop cfg env sess st1)) = Num (min (60000 * 2 ^ k) M)
         \<and> backoffUntil (fst (pollLoop cfg env sess st1))
             = Some (t_done env + min (60000 * 2 ^ k) M)
         \<and> lastPollMsEffective (fst (pollLoop cfg env sess st1))
             = Some (max 1200 (min (60000 * 2 ^ k) M))
         \<and> nextPollAt (fst (pollLoop cfg env sess st1))
             = Some (t_done env + max 1200 (min (60000 * 2 ^ k) M))
         \<and> (M \<le> 2147483647 \<longrightarrow>
              map_option t_delay (pollTimeout (fst (pollLoop cfg env sess st1)))
                = Some (max 1200 (min (60000 * 2 ^ k) M)))
         \<and> (1200 \<le> M \<and> M \<le> 2147483647 \<longrightarrow>
              map_option t_delay (pollTimeout (fst (pollLoop cfg env sess st1)))
                = Some (min (60000 * 2 ^ k) M))
         \<and> (\<forall>env' sess' r oauth st2.
               ytEnabled st' \<and> \<not> backoff_active (t_wake env') st'
               \<and> pollLiveChat cfg env' (oauthTokens sess') st' = (Returned r, oauth, st2) \<longrightarrow>
               backoffMs (fst (pollLoop cfg env' sess' st')) = Num 0
               \<and> backoffUntil (fst (pollLoop cfg env' sess' st')) = None)"
proof -
  let ?d = "min (60000 * 2 ^ k) M"
  let ?st' = "fst (pollLoop cfg env sess st1)"
  have prev: "backoffMs st1 = Num (if k = 0 then 0 else min (60000 * 2 ^ (k - 1)) M)"
    by (rule streak_backoff [OF streak fresh mx nonneg])
  have pos: "(0::int) < 60000 * 2 ^ (k - 1)"
    by simp
  have dbl: "k \<noteq> 0 \<Longrightarrow> (60000::int) * 2 ^ k = 2 * (60000 * 2 ^ (k - 1))"
    by (cases k) simp_all
  have next_ms: "?d = (if (if k = 0 then 0 else min (60000 * 2 ^ (k - 1)) M) \<noteq> 0
                 then min ((if k = 0 then 0 else min (60000 * 2 ^ (k - 1)) M) * 2) M
                 else min 60000 M)"
    using nonneg pos dbl by (cases "k = 0") (auto simp: min_def)
  have big: "(1200::int) \<le> 60000 * 2 ^ k"
  proof -
    have "(1::int) \<le> 2 ^ k" by simp
    then show ?thesis by linarith
  qed
  have d0: "0 \<le> ?d"
    using nonneg big by simp
  have v1: "valid_time (t_done env + ?d)"
  proof -
    have "?d \<le> max 1200 ?d"
      by simp
    with t1 t2 d0 show ?thesis
      unfolding valid_time_def by linarith
  qed
  note step = pollLoop_quota_step [OF qc mx prev next_ms v1 t2]
  have small: "setTimeout_delay (max 1200 ?d) = max 1200 ?d" if "M \<le> 2147483647"
  proof -
    have "?d \<le> M"
      by simp
    with that have "1 \<le> max 1200 ?d" and "max 1200 ?d \<le> 2147483647"
      by linarith+
    then show ?thesis
      by (rule setTimeout_delay_id)
  qed
  have floor: "1200 \<le> M \<Longrightarrow> max 1200 ?d = ?d"
    using big by simp
  note armed = step [THEN conjunct2, THEN conjunct2, THEN conjunct2, THEN conjunct2, THEN conjunct2]
  have timer: "M \<le> 2147483647 \<longrightarrow> map_option t_delay (pollTimeout ?st') = Some (max 1200 ?d)"
  proof
    assume "M \<le> 2147483647"
    from armed show "map_option t_delay (pollTimeout ?st') = Some (max 1200 ?d)"
      unfolding small [OF \<open>M \<le> 2147483647\<close>] .
  qed
  have exact: "1200 \<le> M \<and> M \<le> 2147483647 \<longrightarrow> map_option t_delay (pollTimeout ?st') = Some ?d"
  proof
    assume m: "1200 \<le> M \<and> M \<le> 2147483647"
    then have "M \<le> 2147483647" and "1200 \<le> M"
      by simp_all
    from armed have "map_option t_delay (pollTimeout ?st') = Some (max 1200 ?d)"
      unfolding small [OF \<open>M \<le> 2147483647\<close>] .
    then show "map_option t_delay (pollTimeout ?st') = Some ?d"
      unfolding floor [OF \<open>1200 \<le> M\<close>] .
  qed
  have reset: "\<forall>env' sess' r oauth st2.
               ytEnabled st' \<and> \<not> backoff_active (t_wake env') st'
               \<and> pollLiveChat cfg env' (oauthTokens sess') st' = (Returned r, oauth, st2) \<longrightarrow>
               backoffMs (fst (pollLoop cfg env' sess' st')) = Num 0
               \<and> backoffUntil (fst (pollLoop cfg env' sess' st')) = None"
    using pollLoop_success_resets by blast
  show ?thesis
    using step timer exact reset by (intro conjI) simp_all
qed

text \<open>
  An instance: a quota error, a generic error after the backoff has run out, a second
  quota error. The second quota error doubles the duration to 120000 ms. A successful
  cycle sets it to zero.
\<close>

theorem quota_backoff_growth_witness:
  "backoffMs (fst (pollLoop (ex_cfg 2500 1800000) (ex_env_at 100000 (Inl ex_quota_error)) ex_session
                ex_state)) = Num 60000
   \<and> backoffMs
       (fst (pollLoop (ex_cfg 2500 1800000) (ex_env_at 190000 (Inl ex_quota_error)) ex_session
          (fst (pollLoop (ex_cfg 2500 1800000) (ex_env_at 170000 (Inl ex_generic_error)) ex_session
             (fst (pollLoop (ex_cfg 2500 1800000) (ex_env_at 100000 (Inl ex_quota_error))
                     ex_session ex_state)))))) = Num 120000
   \<and> map_option t_delay (pollTimeout
       (fst (pollLoop (ex_cfg 2500 1800000) (ex_env_at 190000 (Inl ex_quota_error)) ex_session
          (fst (pollLoop (ex_cfg 2500 1800000) (ex_env_at 170000 (Inl ex_generic_error)) ex_session
             (fst (pollLoop (ex_cfg 2500 1800000) (ex_env_at 100000 (Inl ex_quota_error))
                     ex_session ex_state))))))) = Some 120000
   \<and> backoffUntil
       (fst (pollLoop (ex_cfg 2500 1800000) (ex_env_at 190000 (Inl ex_quota_error)) ex_session
          (fst (pollLoop (ex_cfg 2500 1800000) (ex_env_at 170000 (Inl ex_generic_error)) ex_session
             (fst (pollLoop (ex_cfg 2500 1800000) (ex_env_at 100000 (Inl ex_quota_error))
                     ex_session ex_state)))))) = Some 310200
   \<and> backoffMs (fst (pollLoop (ex_cfg 2500 1800000) (ex_env (Inr (ex_page_empty None))) ex_session
                ex_state)) = Num 0"
proof -
  let ?cfg = "ex_cfg 2500 1800000"
  let ?e1 = "ex_env_at 100000 (Inl ex_quota_error)"
  let ?e2 = "ex_env_at 170000 (Inl ex_generic_error)"
  let ?e3 = "ex_env_at 190000 (Inl ex_quota_error)"
  let ?s1 = "fst (pollLoop ?cfg ?e1 ex_session ex_state)"
  let ?s2 = "fst (pollLoop ?cfg ?e2 ex_session ?s1)"
  have fresh: "backoffMs ex_state = Num 0"
    by (simp add: ex_state_def initial_state_def)
  have mx: "YT_BACKOFF_MAX_MS ?cfg = Num 1800000"
    by (simp add: ex_cfg_def)
  have nonneg: "(0::int) \<le> 1800000"
    by simp
  have en: "ytEnabled ex_state"
    by (simp add: ex_state_def initial_state_def)
  have nb: "\<not> backoff_active t ex_state" for t
    by (simp add: backoff_active_def ex_state_def initial_state_def)
  have qc0: "quota_cycle ?cfg ?e1 ex_session ex_state"
    by (rule ex_quota_cycle [OF en nb])
  have v0: "valid_time (t_done ?e1)"
           "valid_time (t_done ?e1 + max 1200 (min (60000 * 2 ^ 0) 1800000))"
    by (simp_all add: valid_time_def ex_env_at_def)
  note g0 = quota_backoff_growth [OF quota_streak.start fresh mx nonneg qc0 v0, where st' = ex_state]
  have first: "backoffMs ?s1 = Num 60000"
    using g0 by simp
  have u1: "backoffUntil ?s1 = Some 160200"
    using g0 by (simp add: ex_env_at_def)
  have nb1: "\<not> backoff_active 170000 ?s1"
    using u1 by (simp add: backoff_active_def)
  have en1: "ytEnabled ?s1"
    using en by (simp add: pollLoop_keeps_enabled)
  have of1: "other_failure ?cfg ?e2 ex_session ?s1"
    by (rule ex_other_failure [OF en1 nb1])
  have u2: "backoffUntil ?s2 = Some 160200"
    using pollLoop_other_failure(2) [OF of1] u1 by simp
  have nb2: "\<not> backoff_active 190000 ?s2"
    using u2 by (simp add: backoff_active_def)
  have en2: "ytEnabled ?s2"
    using en1 by (simp add: pollLoop_keeps_enabled)
  have qc2: "quota_cycle ?cfg ?e3 ex_session ?s2"
    by (rule ex_quota_cycle [OF en2 nb2])
  have streak2: "quota_streak ?cfg (Suc 0) ex_state ?s2"
    by (rule quota_streak.failed [OF quota_streak.quota [OF quota_streak.start qc0] of1])
  have v2: "valid_time (t_done ?e3)"
           "valid_time (t_done ?e3 + max 1200 (min (60000 * 2 ^ Suc 0) 1800000))"
    by (simp_all add: valid_time_def ex_env_at_def)
  note g2 = quota_backoff_growth [OF streak2 fresh mx nonneg qc2 v2, where st' = ex_state]
  have ok: "pollLiveChat ?cfg (ex_env (Inr (ex_page_empty None))) (oauthTokens ex_session) ex_state
            = (Returned (PollResult None),
               fst (snd (pollLiveChat ?cfg (ex_env (Inr (ex_page_empty None)))
                           (oauthTokens ex_session) ex_state)),
               snd (snd (pollLiveChat ?cfg (ex_env (Inr (ex_page_empty None)))
                           (oauthTokens ex_session) ex_state)))"
  proof -
    have "fst (pollLiveChat ?cfg (ex_env (Inr (ex_page_empty None))) (oauthTokens ex_session)
                 ex_state) = Returned (PollResult None)"
      by (simp add: fst_pollLiveChat fst_fetch_page eval_env str_def)
    then show ?thesis
      using pollLiveChat_triple [of ?cfg "ex_env (Inr (ex_page_empty None))"
              "oauthTokens ex_session" ex_state]
      by simp
  qed
  have nb0: "\<not> backoff_active (t_wake (ex_env (Inr (ex_page_empty None)))) ex_state"
    by (rule nb)
  have reset: "backoffMs (fst (pollLoop ?cfg (ex_env (Inr (ex_page_empty None))) ex_session
                 ex_state)) = Num 0"
    using g2 en nb0 ok by blast
  show ?thesis
    using first g2 reset by (simp add: ex_env_at_def)
qed

text \<open>
  The claim as written fails when the configured maximum is below 1200 ms: with
  \<open>YT_BACKOFF_MAX_MS = 1000\<close> the first quota error gives \<open>min(60000, 1000) = 1000\<close>, but
  the timer is armed with 1200.
\<close>

theorem quota_backoff_below_floor:
  "quota_cycle (ex_cfg 2500 1000) (ex_env_at 100000 (Inl ex_quota_error)) ex_session ex_state
   \<and> backoffMs ex_state = Num 0
   \<and> map_option t_delay
        (pollTimeout (fst (pollLoop (ex_cfg 2500 1000) (ex_env_at 100000 (Inl ex_quota_error))
                             ex_session ex_state))) = Some 1200
   \<and> min (60000 * 2 ^ (1 - 1)) 1000 = (1000::int)"
proof -
  have fresh: "backoffMs ex_state = Num 0"
    by (simp add: ex_state_def initial_state_def)
  have mx: "YT_BACKOFF_MAX_MS (ex_cfg 2500 1000) = Num 1000"
    by (simp add: ex_cfg_def)
  have en: "ytEnabled ex_state"
    by (simp add: ex_state_def initial_state_def)
  have nb: "\<not> backoff_active 100000 ex_state"
    by (simp add: backoff_active_def ex_state_def initial_state_def)
  have qc: "quota_cycle (ex_cfg 2500 1000) (ex_env_at 100000 (Inl ex_quota_error)) ex_session
              ex_state"
    by (rule ex_quota_cycle [OF en nb])
  have d: "(1000::int) = (if (0::int) \<noteq> 0 then min (0 * 2) 1000 else min 60000 1000)"
    by simp
  have v: "valid_time (t_done (ex_env_at 100000 (Inl ex_quota_error)) + 1000)"
          "valid_time (t_done (ex_env_at 100000 (Inl ex_quota_error)) + max 1200 1000)"
    by (simp_all add: valid_time_def ex_env_at_def)
  show ?thesis
    using qc fresh pollLoop_quota_step [OF qc mx fresh d v]
    by (simp add: setTimeout_delay_def)
qed

section \<open>Write-back of a refreshed credential\<close>

text \<open>
  C9 (as amended). The access token is refreshed exactly when the channel lookup is due
  (the cached channel is missing, or the cache has no date or is older than
  \<open>YT_CHANNEL_TTL_MS\<close>), the lookup throws and a refresh token exists. When the refresh
  then answers with credentials, the access token and the expiry of the stored token
  object are overwritten in place with the answered ones, each kept as it was when the
  answer has none (or a zero expiry); in every other case the token object is unchanged.
  The refresh token is never changed. The code does not compare the answered expiry with
  the stored one: the expiry after the refresh is at least the expiry before whenever the
  answered expiry, if any, is. The token object so written is the one \<open>pollLiveChat\<close> leaves
  in the session.
\<close>

theorem refresh_writes_back:
  "fst (refresh_channel cfg env tk st)
     = (if (authedChannel st = None \<or> shouldRefreshChannel cfg env st)
           \<and> isl (r_channels env) \<and> truthy_str (refresh_token tk)
        then (case r_refresh env of
                Inr (Some cr) \<Rightarrow>
                  tk\<lparr>access_token := or_str (cr_access_token cr) (access_token tk),
                     expiry_date := or_int (cr_expiry_date cr) (expiry_date tk)\<rparr>
              | _ \<Rightarrow> tk)
        else tk)
   \<and> refresh_token (fst (refresh_channel cfg env tk st)) = refresh_token tk
   \<and> ((\<forall>cr x. r_refresh env = Inr (Some cr) \<and> cr_expiry_date cr = Some x \<and> x \<noteq> 0
               \<longrightarrow> expiry_date tk \<le> Some x)
       \<longrightarrow> expiry_date tk \<le> expiry_date (fst (refresh_channel cfg env tk st)))
   \<and> (oauthConfigured cfg \<longrightarrow>
         fst (snd (pollLiveChat cfg env (Some tk) st))
           = Some (fst (refresh_channel cfg env tk (st\<lparr>lastPollAt := Some (t_wake env)\<rparr>))))"
proof -
  have exact: "fst (refresh_channel cfg env tk st)
     = (if (authedChannel st = None \<or> shouldRefreshChannel cfg env st)
           \<and> isl (r_channels env) \<and> truthy_str (refresh_token tk)
        then (case r_refresh env of
                Inr (Some cr) \<Rightarrow>
                  tk\<lparr>access_token := or_str (cr_access_token cr) (access_token tk),
                     expiry_date := or_int (cr_expiry_date cr) (expiry_date tk)\<rparr>
              | _ \<Rightarrow> tk)
        else tk)"
    by (cases "r_channels env")
       (auto simp: refresh_channel_def Let_def getAuthedChannel_def
             split: option.splits sum.splits list.splits)
  have shape: "fst (refresh_channel cfg env tk st) = tk
       \<or> (\<exists>cr. r_refresh env = Inr (Some cr)
              \<and> fst (refresh_channel cfg env tk st)
                  = tk\<lparr>access_token := or_str (cr_access_token cr) (access_token tk),
                       expiry_date := or_int (cr_expiry_date cr) (expiry_date tk)\<rparr>)"
    unfolding exact by (auto split: sum.splits option.splits)
  have kept: "refresh_token (fst (refresh_channel cfg env tk st)) = refresh_token tk"
    using shape by auto
  have mono: "(\<forall>cr x. r_refresh env = Inr (Some cr) \<and> cr_expiry_date cr = Some x \<and> x \<noteq> 0
               \<longrightarrow> expiry_date tk \<le> Some x)
       \<longrightarrow> expiry_date tk \<le> expiry_date (fst (refresh_channel cfg env tk st))"
    using shape by (auto simp: or_int_def split: option.splits)
  have stored: "oauthConfigured cfg \<longrightarrow>
         fst (snd (pollLiveChat cfg env (Some tk) st))
           = Some (fst (refresh_channel cfg env tk (st\<lparr>lastPollAt := Some (t_wake env)\<rparr>)))"
    using pollLiveChat_tokens by blast
  show ?thesis
    using exact kept mono stored by blast
qed

text \<open>
  Instances: a refresh on the path of a stale cache (the channel was cached at the instant
  1000, the cycle wakes at 50000000, more than the six hours of \<open>YT_CHANNEL_TTL_MS\<close> later)
  and one on the path of a missing cache, both writing the answered token and expiry;
  a cycle with a fresh cache, which makes no lookup and leaves the token object alone; a
  refresh answered with empty credentials.
\<close>

theorem refresh_writes_back_witness:
  "authedChannel (ex_state_cached 1000) \<noteq> None
   \<and> fst (refresh_channel (ex_cfg 2500 1800000)
          ((ex_env_refresh \<lparr>cr_access_token = Some (str ''at1''), cr_expiry_date = Some 9000\<rparr>)
             \<lparr>t_wake := 50000000\<rparr>)
          ex_tokens (ex_state_cached 1000))
     = \<lparr>access_token = Some (str ''at1''), refresh_token = Some (str ''rt''),
        expiry_date = Some 9000\<rparr>
   \<and> fst (refresh_channel (ex_cfg 2500 1800000)
          (ex_env_refresh \<lparr>cr_access_token = Some (str ''at1''), cr_expiry_date = Some 9000\<rparr>)
          ex_tokens ex_state)
     = \<lparr>access_token = Some (str ''at1''), refresh_token = Some (str ''rt''),
        expiry_date = Some 9000\<rparr>
   \<and> fst (refresh_channel (ex_cfg 2500 1800000)
          (ex_env_refresh \<lparr>cr_access_token = Some (str ''at1''), cr_expiry_date = Some 9000\<rparr>)
          ex_tokens (ex_state_cached 99000)) = ex_tokens
   \<and> fst (refresh_channel (ex_cfg 2500 1800000)
          (ex_env_refresh \<lparr>cr_access_token = None, cr_expiry_date = None\<rparr>)
          ex_tokens ex_state) = ex_tokens
   \<and> expiry_date ex_tokens
       \<le> expiry_date
            (fst (refresh_channel (ex_cfg 2500 1800000)
               (ex_env_refresh \<lparr>cr_access_token = Some (str ''at1''), cr_expiry_date = Some 9000\<rparr>)
               ex_tokens ex_state))"
proof -
  let ?env = "ex_env_refresh \<lparr>cr_access_token = Some (str ''at1''), cr_expiry_date = Some 9000\<rparr>"
  have later: "\<forall>cr x. r_refresh ?env = Inr (Some cr) \<and> cr_expiry_date cr = Some x \<and> x \<noteq> 0
                 \<longrightarrow> expiry_date ex_tokens \<le> Some x"
    by (auto simp: ex_env_refresh_def ex_tokens_def)
  note mono = refresh_writes_back [where cfg = "ex_cfg 2500 1800000" and env = ?env
                and tk = ex_tokens and st = ex_state, THEN conjunct2, THEN conjunct2,
                THEN conjunct1, THEN mp, OF later]
  note upd = refresh_writes_back [THEN conjunct1]
  have written: "authedChannel (ex_state_cached 1000) \<noteq> None
   \<and> fst (refresh_channel (ex_cfg 2500 1800000) (?env\<lparr>t_wake := 50000000\<rparr>) ex_tokens
            (ex_state_cached 1000))
     = \<lparr>access_token = Some (str ''at1''), refresh_token = Some (str ''rt''),
        expiry_date = Some 9000\<rparr>
   \<and> fst (refresh_channel (ex_cfg 2500 1800000) ?env ex_tokens ex_state)
     = \<lparr>access_token = Some (str ''at1''), refresh_token = Some (str ''rt''),
        expiry_date = Some 9000\<rparr>
   \<and> fst (refresh_channel (ex_cfg 2500 1800000) ?env ex_tokens (ex_state_cached 99000)) = ex_tokens
   \<and> fst (refresh_channel (ex_cfg 2500 1800000)
          (ex_env_refresh \<lparr>cr_access_token = None, cr_expiry_date = None\<rparr>)
          ex_tokens ex_state) = ex_tokens"
    unfolding upd
    by (simp add: shouldRefreshChannel_def ex_state_cached_def ex_state_def initial_state_def
          ex_env_refresh_def ex_env_def ex_cfg_def ex_tokens_def ex_error_def ex_page_empty_def
          or_str_def or_int_def str_def)
  show ?thesis
    using written mono by simp
qed

text \<open>
  The claim as written fails: a refresh that answers with the expiry 1000 replaces the
  stored expiry 2000.
\<close>

theorem refresh_can_shorten_expiry:
  "expiry_date ex_tokens = Some 2000
   \<and> expiry_date
        (fst (refresh_channel (ex_cfg 2500 1800000)
                (ex_env_refresh \<lparr>cr_access_token = Some (str ''at1''), cr_expiry_date = Some 1000\<rparr>)
                ex_tokens ex_state)) = Some 1000
   \<and> access_token
        (fst (refresh_channel (ex_cfg 2500 1800000)
                (ex_env_refresh \<lparr>cr_access_token = Some (str ''at1''), cr_expiry_date = Some 1000\<rparr>)
                ex_tokens ex_state)) = Some (str ''at1'')"
  by (simp add: refresh_channel_def Let_def getAuthedChannel_def ex_env_refresh_def ex_env_def
        ex_state_def initial_state_def ex_tokens_def ex_error_def or_str_def or_int_def str_def
        ex_page_empty_def shouldRefreshChannel_def)

section \<open>The switch does not arm the timer\<close>

text \<open>
  C8. \<open>POST /api/yt/enabled\<close> with \<open>enabled: true\<close> sets the flag and resets the live state,
  but leaves \<open>pollTimeout\<close> and \<open>nextPollAt\<close> as they were: from the disabled state no wake
  is armed, with or without a subscriber already connected. A wake is armed only by the
  next \<open>GET /api/events\<close> (or OAuth callback), which calls \<open>ensurePolling\<close>.
\<close>

theorem enable_arms_no_wake:
  "pollTimeout (post_yt_enabled True st) = pollTimeout st
   \<and> nextPollAt (post_yt_enabled True st) = nextPollAt st
   \<and> ytEnabled (post_yt_enabled True (initial_state False))
   \<and> pollTimeout (post_yt_enabled True (initial_state False)) = None
   \<and> pollTimeout (post_yt_enabled True
        (get_api_events (ex_cfg 2500 1800000) 5000 ex_session (ex_sink 1 False) (initial_state False)))
       = None
   \<and> map_option t_delay (pollTimeout
        (get_api_events (ex_cfg 2500 1800000) 6000 ex_session (ex_sink 2 False)
           (post_yt_enabled True (initial_state False)))) = Some 2500"
  by (simp add: post_yt_enabled_def Let_def get_api_events_def ensurePolling_def
        initial_state_def ex_cfg_def resetLiveState_def record_entry_def res_write_def
        ex_sink_def scheduleNextPoll_armed valid_time_def setTimeout_delay_def)

section \<open>A chat that is no longer live\<close>

text \<open>
  When the poll of a cycle throws an error for which \<open>isChatNoLongerLiveError\<close> holds (the
  scheduler being enabled, no backoff running), the cycle clears the cached chat id, the
  continuation token, the last-seen message id and the cached broadcast, and schedules
  the next wake after \<open>d = max(15000, max(1200, p))\<close> when \<open>YT_POLL_MS\<close> is a number \<open>p\<close>, and
  after 1200 ms when it is not a number (the instant that far ahead being a time value;
  the timer is armed with \<open>d\<close> itself up to 2147483647). The next wake of that timer asks
  \<open>liveBroadcasts.list\<close> again before any page fetch, and a fetch it makes uses the chat id
  that lookup returned.
\<close>

lemma chat_closed_resets_session:
  assumes en: "ytEnabled st" and nb: "\<not> backoff_active (t_wake env) st"
      and thrown: "pollLiveChat cfg env (oauthTokens sess) st = (Threw e, oauth, st1)"
      and closed: "isChatNoLongerLiveError e"
      and d: "d = (case YT_POLL_MS cfg of NaN \<Rightarrow> 1200 | Num p \<Rightarrow> max 15000 (max 1200 p))"
      and v: "valid_time (t_done env + d)"
  shows "snd (pollLoop cfg env sess st) = None
         \<and> activeLiveChatId (fst (pollLoop cfg env sess st)) = None
         \<and> nextPageToken (fst (pollLoop cfg env sess st)) = None
         \<and> lastSeenMessageId (fst (pollLoop cfg env sess st)) = None
         \<and> activeBroadcast (fst (pollLoop cfg env sess st)) = None
         \<and> lastPollMsEffective (fst (pollLoop cfg env sess st)) = Some d
         \<and> pollTimeout (fst (pollLoop cfg env sess st))
             = Some \<lparr>t_delay = setTimeout_delay d, t_session = sess\<lparr>oauthTokens := oauth\<rparr>,
                     t_fired = False\<rparr>
         \<and> nextPollAt (fst (pollLoop cfg env sess st)) = Some (t_done env + d)
         \<and> (\<forall>env2. t_wake env \<le> t_wake env2 \<longrightarrow>
               (\<exists>pre post.
                  history (fst (wake cfg env2 (fst (pollLoop cfg env sess st))))
                    = history (fst (pollLoop cfg env sess st)) @ pre @ LiveBroadcastsList # post
                  \<and> set pre \<subseteq> {ChannelsList, RefreshAccessToken}
                  \<and> (\<forall>c tok. LiveChatMessagesList c tok \<in> set post \<longrightarrow>
                        (\<exists>b rest. r_broadcasts env2 = Inr (b # rest) \<and> b_liveChatId b = Some c))))"
proof -
  let ?st' = "fst (pollLoop cfg env sess st)"
  note loop = pollLoop_chat_closed [OF en nb thrown closed]
  have slow: "the_ms (poll_delay (slowed_interval cfg)) = d"
    unfolding d by (rule the_ms_slowed)
  have v': "valid_time (t_done env + the_ms (poll_delay (slowed_interval cfg)))"
    using v slow by simp
  have fields: "snd (pollLoop cfg env sess st) = None
         \<and> activeLiveChatId ?st' = None \<and> nextPageToken ?st' = None
         \<and> lastSeenMessageId ?st' = None \<and> activeBroadcast ?st' = None
         \<and> lastPollMsEffective ?st' = Some d
         \<and> pollTimeout ?st'
             = Some \<lparr>t_delay = setTimeout_delay d, t_session = sess\<lparr>oauthTokens := oauth\<rparr>,
                     t_fired = False\<rparr>
         \<and> nextPollAt ?st' = Some (t_done env + d)"
    by (simp add: loop scheduleNextPoll_armed [OF v'] slow)
  from pollLiveChat_threw [OF thrown] obtain tk where
    conf: "oauthConfigured cfg" and tk: "oauth = Some tk"
    by auto
  have en': "ytEnabled ?st'"
    using en by (simp add: pollLoop_keeps_enabled)
  have "backoffUntil (snd (snd (pollLiveChat cfg env (oauthTokens sess) st))) = backoffUntil st"
    by simp
  then have "backoffUntil st1 = backoffUntil st"
    using thrown by simp
  then have bo: "backoffUntil ?st' = backoffUntil st"
    by (simp add: loop)
  have next_wake: "\<exists>pre post.
          history (fst (wake cfg env2 ?st')) = history ?st' @ pre @ LiveBroadcastsList # post
          \<and> set pre \<subseteq> {ChannelsList, RefreshAccessToken}
          \<and> (\<forall>c tok. LiveChatMessagesList c tok \<in> set post \<longrightarrow>
                (\<exists>b rest. r_broadcasts env2 = Inr (b # rest) \<and> b_liveChatId b = Some c))"
    if later: "t_wake env \<le> t_wake env2" for env2
  proof -
    let ?tm = "\<lparr>t_delay = setTimeout_delay d, t_session = sess\<lparr>oauthTokens := oauth\<rparr>,
                 t_fired = True\<rparr>"
    let ?a = "?st'\<lparr>pollTimeout := Some ?tm\<rparr>"
    have w: "wake cfg env2 ?st' = pollLoop cfg env2 (sess\<lparr>oauthTokens := oauth\<rparr>) ?a"
      using fields by (simp add: wake_def)
    have ena: "ytEnabled ?a"
      using en' by simp
    have nba: "\<not> backoff_active (t_wake env2) ?a"
      using nb later bo by (simp add: backoff_active_def split: option.splits)
    have stale: "\<not> truthy_str (activeLiveChatId ?a)"
      using fields by simp
    obtain pre post where pp:
      "history (snd (snd (pollLiveChat cfg env2 (Some tk) ?a)))
         = history ?a @ pre @ LiveBroadcastsList # post"
      "set pre \<subseteq> {ChannelsList, RefreshAccessToken}"
      "\<forall>c tok. LiveChatMessagesList c tok \<in> set post \<longrightarrow>
         (\<exists>b rest. r_broadcasts env2 = Inr (b # rest) \<and> b_liveChatId b = Some c)"
      using pollLiveChat_relooks [OF conf stale, of env2 tk] by blast
    obtain es where es:
      "history (fst (pollLoop cfg env2 (sess\<lparr>oauthTokens := oauth\<rparr>) ?a))
         = history (snd (snd (pollLiveChat cfg env2
                                (oauthTokens (sess\<lparr>oauthTokens := oauth\<rparr>)) ?a))) @ es"
      "set es \<subseteq> {SessionReset}"
      using pollLoop_history_grows [OF ena nba] by blast
    have "history (fst (wake cfg env2 ?st')) = history ?st' @ pre @ LiveBroadcastsList # (post @ es)"
      using w es(1) pp(1) tk by simp
    moreover have "\<forall>c tok. LiveChatMessagesList c tok \<in> set (post @ es) \<longrightarrow>
         (\<exists>b rest. r_broadcasts env2 = Inr (b # rest) \<and> b_liveChatId b = Some c)"
      using pp(3) es(2) by auto
    ultimately show ?thesis
      using pp(2) by blast
  qed
  show ?thesis
    using fields next_wake by blast
qed

text \<open>
  C6. The retry after a closed chat is not slowed when \<open>YT_POLL_MS\<close> is set to a text that
  is not a number. The poll of the example throws \<open>The live chat is no longer live.\<close>; the
  cycle resets the live session, as it does for every configuration, and arms the timer
  with 1200 ms, the next wake 1200 ms after the end of the cycle, where the comment of the
  branch says to slow down. With \<open>YT_POLL_MS = 2500\<close> the same cycle arms 15000 ms.
\<close>

theorem nan_poll_ms_closed_chat_retry:
  "YT_POLL_MS ex_cfg_nan = NaN
   \<and> isChatNoLongerLiveError ex_closed_error
   \<and> fst (pollLiveChat ex_cfg_nan (ex_env_at 100000 (Inl ex_closed_error))
            (oauthTokens ex_session) ex_state) = Threw ex_closed_error
   \<and> activeLiveChatId
        (fst (pollLoop ex_cfg_nan (ex_env_at 100000 (Inl ex_closed_error)) ex_session ex_state))
       = None
   \<and> map_option t_delay
        (pollTimeout (fst (pollLoop ex_cfg_nan (ex_env_at 100000 (Inl ex_closed_error))
                             ex_session ex_state))) = Some 1200
   \<and> lastPollMsEffective
        (fst (pollLoop ex_cfg_nan (ex_env_at 100000 (Inl ex_closed_error)) ex_session ex_state))
       = Some 1200
   \<and> nextPollAt
        (fst (pollLoop ex_cfg_nan (ex_env_at 100000 (Inl ex_closed_error)) ex_session ex_state))
       = Some 101400
   \<and> map_option t_delay
        (pollTimeout (fst (pollLoop (ex_cfg 2500 1800000) (ex_env_at 100000 (Inl ex_closed_error))
                             ex_session ex_state))) = Some 15000"
proof -
  let ?e1 = "ex_env_at 100000 (Inl ex_closed_error)"
  have en: "ytEnabled ex_state"
    by (simp add: ex_state_def initial_state_def)
  have nb: "\<not> backoff_active (t_wake ?e1) ex_state"
    by (simp add: backoff_active_def ex_state_def initial_state_def)
  have out: "fst (pollLiveChat cfg ?e1 (oauthTokens ex_session) ex_state) = Threw ex_closed_error"
    if "oauthConfigured cfg" for cfg
    using that
    by (simp add: fst_pollLiveChat fst_fetch_page ex_env_at_def ex_env_def ex_session_def
          ex_state_def initial_state_def str_def)
  have thrown: "pollLiveChat cfg ?e1 (oauthTokens ex_session) ex_state
                  = (Threw ex_closed_error,
                     fst (snd (pollLiveChat cfg ?e1 (oauthTokens ex_session) ex_state)),
                     snd (snd (pollLiveChat cfg ?e1 (oauthTokens ex_session) ex_state)))"
    if "oauthConfigured cfg" for cfg
    using pollLiveChat_triple [of cfg ?e1 "oauthTokens ex_session" ex_state]
    unfolding out [OF that] .
  have c1: "oauthConfigured ex_cfg_nan" and c2: "oauthConfigured (ex_cfg 2500 1800000)"
    by (simp_all add: ex_cfg_nan_def ex_cfg_def)
  have nan: "YT_POLL_MS ex_cfg_nan = NaN"
    by (simp add: ex_cfg_nan_def)
  have closed: "isChatNoLongerLiveError ex_closed_error"
    by (simp add: eval_error)
  have d1: "(1200::int) = (case YT_POLL_MS ex_cfg_nan of NaN \<Rightarrow> 1200
                            | Num p \<Rightarrow> max 15000 (max 1200 p))"
    by (simp add: nan)
  have d2: "(15000::int) = (case YT_POLL_MS (ex_cfg 2500 1800000) of NaN \<Rightarrow> 1200
                             | Num p \<Rightarrow> max 15000 (max 1200 p))"
    by (simp add: ex_cfg_def)
  have v1: "valid_time (t_done ?e1 + 1200)" and v2: "valid_time (t_done ?e1 + 15000)"
    by (simp_all add: valid_time_def ex_env_at_def)
  note i1 = chat_closed_resets_session [OF en nb thrown [OF c1] closed d1 v1]
  note i2 = chat_closed_resets_session [OF en nb thrown [OF c2] closed d2 v2]
  have f1: "activeLiveChatId (fst (pollLoop ex_cfg_nan ?e1 ex_session ex_state)) = None
            \<and> lastPollMsEffective (fst (pollLoop ex_cfg_nan ?e1 ex_session ex_state)) = Some 1200
            \<and> nextPollAt (fst (pollLoop ex_cfg_nan ?e1 ex_session ex_state))
                = Some (t_done ?e1 + 1200)
            \<and> map_option t_delay (pollTimeout (fst (pollLoop ex_cfg_nan ?e1 ex_session ex_state)))
                = Some (setTimeout_delay 1200)"
    using i1 by simp
  have f2: "map_option t_delay
              (pollTimeout (fst (pollLoop (ex_cfg 2500 1800000) ?e1 ex_session ex_state)))
                = Some (setTimeout_delay 15000)"
    using i2 by simp
  show ?thesis
    using nan closed out [OF c1] f1 f2
    by (simp add: ex_env_at_def setTimeout_delay_def)
qed

section \<open>Threading of the continuation token\<close>

text \<open>
  C7. In every run of the engine (wakes of the timer, uses of the switch, subscribers that
  connect or go away, authorizations and logouts, in any order) from a state whose
  history is threaded, the history stays threaded:
  every page fetch passes, unchanged, the \<open>nextPageToken\<close> of the last answered page that
  carried one since the last \<open>resetLiveState\<close> (and none right after a reset), and the
  stored token is the one the next fetch has to pass. The token is never rolled back: a
  page answered without a token leaves the stored one as it is. Each fetch passes the
  stored token (\<open>pageToken: nextPageToken || undefined\<close>), and an answered page stores
  \<open>resp.data.nextPageToken || nextPageToken\<close>.
\<close>

theorem continuation_token_threaded:
  assumes "threaded cur (history st)"
      and "expected cur (history st) = or_str (nextPageToken st) None"
  shows "threaded cur (history (run_actions cfg acts st))
         \<and> expected cur (history (run_actions cfg acts st))
             = or_str (nextPageToken (run_actions cfg acts st)) None
         \<and> history (snd (fetch_page env chatId st'))
             = history st' @ LiveChatMessagesList chatId (or_str (nextPageToken st') None)
                 # (case r_messages env of
                      Inl e \<Rightarrow> []
                    | Inr pg \<Rightarrow> [PageAnswer (p_nextPageToken pg)])
         \<and> nextPageToken (snd (fetch_page env chatId st'))
             = (case r_messages env of
                  Inl e \<Rightarrow> nextPageToken st'
                | Inr pg \<Rightarrow> or_str (p_nextPageToken pg) (nextPageToken st'))"
proof -
  from token_step_run [OF token_step_refl, of st cfg acts] obtain es where
    es: "history (run_actions cfg acts st) = history st @ es"
        "threaded (or_str (nextPageToken st) None) es"
        "expected (or_str (nextPageToken st) None) es
           = or_str (nextPageToken (run_actions cfg acts st)) None"
    by (auto simp: token_step_def)
  have "threaded cur (history (run_actions cfg acts st))"
    using assms es by (simp add: threaded_append)
  moreover have "expected cur (history (run_actions cfg acts st))
                   = or_str (nextPageToken (run_actions cfg acts st)) None"
    using assms es by (simp add: expected_append)
  ultimately show ?thesis
    using history_fetch_page nextPageToken_fetch_page by simp
qed

theorem continuation_token_threaded_witness:
  "threaded None (history (run_actions (ex_cfg 2500 1800000) ex_run ex_state))
   \<and> history (run_actions (ex_cfg 2500 1800000) ex_run ex_state)
     = [ChannelsList, LiveBroadcastsList,
        LiveChatMessagesList (str ''chat1'') None, PageAnswer (Some (str ''t1'')),
        LiveChatMessagesList (str ''chat1'') (Some (str ''t1'')), PageAnswer (Some (str ''t2''))]
   \<and> nextPageToken (run_actions (ex_cfg 2500 1800000) ex_run ex_state) = Some (str ''t2'')"
proof -
  have h0: "threaded None (history ex_state)"
    by (simp add: ex_state_def initial_state_def)
  have t0: "expected None (history ex_state) = or_str (nextPageToken ex_state) None"
    by (simp add: ex_state_def initial_state_def or_str_def)
  from continuation_token_threaded [OF h0 t0, of "ex_cfg 2500 1800000" ex_run]
  have "threaded None (history (run_actions (ex_cfg 2500 1800000) ex_run ex_state))"
    by blast
  then show ?thesis
    using ex_run_history by blast
qed

end
